theory Spec2Isabelle
  imports Complex_Main
begin

section \<open>Numbers, strings and the absent helpers\<close>

text \<open>
  The program is \<^verbatim>\<open>src/scroll.js\<close> of anime.js: scroll containers, the threshold
  resolver (\<^verbatim>\<open>convertValueToPx\<close>, \<^verbatim>\<open>parseBoundValue\<close>) and the class
  \<^verbatim>\<open>ScrollObserver\<close>.

  Numbers. A JavaScript number that stands for a pixel length, a scroll coordinate or a
  progress value is a finite \<open>real\<close> here and arithmetic on it is exact. The one place
  where the source tests for a non-finite number, the quotient of the \<^verbatim>\<open>progress\<close>
  getter, is modelled with the explicit values of the type \<open>jsnum\<close>.

  Helpers. \<^verbatim>\<open>scroll.js\<close> imports \<^verbatim>\<open>round\<close>, \<^verbatim>\<open>clamp\<close>, \<^verbatim>\<open>interpolate\<close>,
  \<^verbatim>\<open>relativeValuesExecRgx\<close>, \<^verbatim>\<open>decomposeRawValue\<close>, \<^verbatim>\<open>getRelativeValue\<close>,
  \<^verbatim>\<open>setValue\<close>, \<^verbatim>\<open>addChild\<close>, \<^verbatim>\<open>removeChild\<close> and \<^verbatim>\<open>forEachChildren\<close> from modules
  that are not part of the sources under study. Each of them is modelled from the
  specification and marked so. \<^verbatim>\<open>convertValueUnit\<close>, \<^verbatim>\<open>parseEasings\<close>, \<^verbatim>\<open>lerp\<close>, the
  easing functions, the linked object and the measurements of the DOM are parameters of
  the functions that use them.
\<close>

datatype jsnum = Fin real | PosInf | NegInf | NaN

definition js_div :: "real \<Rightarrow> real \<Rightarrow> jsnum" where
  \<comment> \<open>\<^verbatim>\<open>a / b\<close> on finite numbers; the divisor zero is the positive zero.\<close>
  "js_div a b =
     (if b = 0 then (if 0 < a then PosInf else if a < 0 then NegInf else NaN)
      else Fin (a / b))"

definition round_js :: "real \<Rightarrow> nat \<Rightarrow> real" where
  \<comment> \<open>Modelled from the spec: \<^verbatim>\<open>round(v, decimalLength)\<close> of helpers.js, which is absent;
      "rounded to the nearest integer pixel", a tie going up as \<^verbatim>\<open>Math.round\<close> does.\<close>
  "round_js v decimalLength =
     of_int \<lfloor>v * 10 ^ decimalLength + 1 / 2\<rfloor> / 10 ^ decimalLength"

definition clamp :: "real \<Rightarrow> real \<Rightarrow> real \<Rightarrow> real" where
  \<comment> \<open>Modelled from the spec: \<^verbatim>\<open>clamp(v, min, max)\<close> of helpers.js, which is absent.\<close>
  "clamp v mn mx = (if v < mn then mn else if mx < v then mx else v)"

definition interpolate :: "real \<Rightarrow> real \<Rightarrow> real \<Rightarrow> real" where
  \<comment> \<open>Modelled from the spec: \<^verbatim>\<open>interpolate(start, end, progress)\<close> of helpers.js, which
      is absent; "a rate interpolated from k into a fixed small-step range".\<close>
  "interpolate a b t = a + (b - a) * t"

text \<open>A threshold value is a string or a number (\<^verbatim>\<open>ScrollThresholdValue\<close>).\<close>

datatype stv = Str string | Num real

fun relativeValuesExec :: "string \<Rightarrow> string option" where
  \<comment> \<open>Modelled from the spec: \<^verbatim>\<open>relativeValuesExecRgx.exec(v)\<close> of consts.js, which is
      absent; the first relative-arithmetic operator \<^verbatim>\<open>+=\<close>, \<^verbatim>\<open>-=\<close>, \<^verbatim>\<open>*=\<close> or \<^verbatim>\<open>/=\<close> of the
      string, \<open>None\<close> for the null of a failed match.\<close>
  "relativeValuesExec (a # b # cs) =
     (if a \<in> set ''*+-/'' \<and> b = CHR ''='' then Some [a, b]
      else relativeValuesExec (b # cs))"
| "relativeValuesExec _ = None"

fun split_from :: "string \<Rightarrow> nat \<Rightarrow> string \<Rightarrow> string \<Rightarrow> string list" where
  "split_from sep skip cur [] = [rev cur]"
| "split_from sep skip cur (c # cs) =
     (if 0 < skip then split_from sep (skip - 1) cur cs
      else if take (length sep) (c # cs) = sep
      then rev cur # split_from sep (length sep - 1) [] cs
      else split_from sep 0 (c # cur) cs)"

definition split_js :: "string \<Rightarrow> string \<Rightarrow> string list" where
  \<comment> \<open>\<^verbatim>\<open>s.split(sep)\<close> of JavaScript strings.\<close>
  "split_js s sep = (if sep = [] then map (\<lambda>c. [c]) s else split_from sep 0 [] s)"

definition at_js :: "string list \<Rightarrow> nat \<Rightarrow> string" where
  \<comment> \<open>\<^verbatim>\<open>splitted[i]\<close>. Past the end JavaScript reads \<^verbatim>\<open>undefined\<close>, which every use
      below treats as it treats the empty string: it is no keyword, and it decomposes
      to the number 0.\<close>
  "at_js xs i = (if i < length xs then xs ! i else [])"

definition is_digit :: "char \<Rightarrow> bool" where
  "is_digit c = (c \<in> set ''0123456789'')"

definition is_alpha :: "char \<Rightarrow> bool" where
  "is_alpha c = (c \<in> set ''abcdefghijklmnopqrstuvwxyzABCDEFGHIJKLMNOPQRSTUVWXYZ'')"

definition digits_val :: "string \<Rightarrow> nat" where
  "digits_val ds = foldl (\<lambda>acc c. 10 * acc + (of_char c - 48)) 0 ds"

definition parse_number :: "string \<Rightarrow> (real \<times> string) option" where
  \<comment> \<open>A leading decimal number (sign, digits, fraction) and the rest of the string.\<close>
  "parse_number s =
     (let (neg, s1) =
            (case s of
               [] \<Rightarrow> (False, s)
             | c # cs \<Rightarrow>
                 if c = CHR ''-'' then (True, cs)
                 else if c = CHR ''+'' then (False, cs) else (False, s));
          ds = takeWhile is_digit s1;
          r1 = dropWhile is_digit s1;
          (fs, r2) =
            (case r1 of
               [] \<Rightarrow> ([], r1)
             | c # cs \<Rightarrow>
                 if c = CHR ''.'' \<and> takeWhile is_digit cs \<noteq> []
                 then (takeWhile is_digit cs, dropWhile is_digit cs) else ([], r1))
      in if ds = [] \<and> fs = [] then None
         else Some ((if neg then - 1 else 1) *
                      (real (digits_val ds) + real (digits_val fs) / 10 ^ length fs), r2))"

definition decomposeRawValue :: "stv \<Rightarrow> real \<times> string option" where
  \<comment> \<open>Modelled from the spec: \<^verbatim>\<open>decomposeRawValue(value, decomposedOriginalValue)\<close> of
      values.js, which is absent; the fields \<^verbatim>\<open>n\<close> and \<^verbatim>\<open>u\<close> of its result. "A percentage
      string, a raw length with unit, or a plain number": a number is its own
      magnitude, a decimal string is its magnitude with the unit that follows it
      (\<^verbatim>\<open>%\<close> or letters), and any other string has magnitude 0 and no unit.\<close>
  "decomposeRawValue rawValue =
     (case rawValue of
        Num x \<Rightarrow> (x, None)
      | Str s \<Rightarrow>
          (case parse_number s of
             None \<Rightarrow> (0, None)
           | Some (m, rest) \<Rightarrow>
               if rest = [] then (m, None)
               else if rest = ''%'' \<or> list_all is_alpha rest then (m, Some rest)
               else (0, None)))"

definition getRelativeValue :: "real \<Rightarrow> real \<Rightarrow> char \<Rightarrow> real" where
  \<comment> \<open>Modelled from the spec: \<^verbatim>\<open>getRelativeValue(x, y, operator)\<close> of values.js, which is
      absent; the two operands "combined with the operator". A quotient by zero is not
      a finite number in JavaScript: the theorems below exclude that one case.\<close>
  "getRelativeValue x y operator =
     (if operator = CHR ''-'' then x - y
      else if operator = CHR ''+'' then x + y
      else if operator = CHR ''/'' then x / y
      else x * y)"

section \<open>The threshold resolver\<close>

text \<open>
  \<^verbatim>\<open>convertValueToPx($el, v, size, under, over)\<close>. The element is used for one thing,
  the call \<^verbatim>\<open>convertValueUnit($el, decomposedOriginalValue, 'px', true).n\<close> of the absent
  unit conversion: the parameter \<open>cvu\<close> is that conversion on the element, from a
  magnitude and its unit to pixels. \<open>sz\<close> is the source's \<^verbatim>\<open>size\<close>; \<open>underPx\<close> and
  \<open>overPx\<close> are its \<^verbatim>\<open>under\<close> and \<^verbatim>\<open>over\<close>, which are optional: \<open>None\<close> is \<^verbatim>\<open>undefined\<close>,
  for which both comparisons of the source are false.
\<close>

definition convertValueToPx ::
  "(real \<Rightarrow> string \<Rightarrow> real) \<Rightarrow> stv \<Rightarrow> real \<Rightarrow> real option \<Rightarrow> real option \<Rightarrow> real"
where
  "convertValueToPx cvu v sz underPx overPx =
     (let clampMin = (v = Str ''min'');
          clampMax = (v = Str ''max'');
          val = (if v = Str ''top'' \<or> v = Str ''left'' \<or> v = Str ''start'' \<or> clampMin
                 then Num 0
                 else if v = Str ''bottom'' \<or> v = Str ''right'' \<or> v = Str ''end'' \<or> clampMax
                 then Str ''100%''
                 else if v = Str ''center'' then Str ''50%''
                 else v);
          (m, u) = decomposeRawValue val;
          px = (case u of
                  None \<Rightarrow> m
                | Some un \<Rightarrow> if un = ''%'' then (m / 100) * sz else cvu m un);
          px = (case underPx of
                  None \<Rightarrow> px
                | Some ud \<Rightarrow> if clampMax \<and> ud < 0 then px + ud else px);
          px = (case overPx of
                  None \<Rightarrow> px
                | Some ov \<Rightarrow> if clampMin \<and> 0 < ov then px + ov else px)
      in px)"

definition parseBoundValue ::
  "(real \<Rightarrow> string \<Rightarrow> real) \<Rightarrow> stv \<Rightarrow> real \<Rightarrow> real option \<Rightarrow> real option \<Rightarrow> real"
where
  "parseBoundValue cvu v sz underPx overPx =
     (let val =
        (case v of
           Str s \<Rightarrow>
             (case relativeValuesExec s of
                Some splitter \<Rightarrow>
                  (let operator = hd splitter;
                       splitted = split_js s splitter;
                       clampMin = (at_js splitted 0 = ''min'');
                       clampMax = (at_js splitted 0 = ''max'');
                       valueAPx = convertValueToPx cvu (Str (at_js splitted 0)) sz underPx overPx;
                       valueBPx = convertValueToPx cvu (Str (at_js splitted 1)) sz underPx overPx
                   in if clampMin then
                        (let mn = getRelativeValue
                                    (convertValueToPx cvu (Str ''min'') sz None None)
                                    valueBPx operator
                         in if mn < valueAPx then valueAPx else mn)
                      else if clampMax then
                        (let mx = getRelativeValue
                                    (convertValueToPx cvu (Str ''max'') sz None None)
                                    valueBPx operator
                         in if valueAPx < mx then valueAPx else mx)
                      else getRelativeValue valueAPx valueBPx operator)
              | None \<Rightarrow> convertValueToPx cvu v sz underPx overPx)
         | Num x \<Rightarrow> x)
      in round_js val 0)"



section \<open>The data model\<close>

text \<open>
  A \<^verbatim>\<open>ScrollContainer\<close>. The fields \<open>c_left\<close>, \<open>c_top\<close>, \<open>c_width\<close> and \<open>c_height\<close> are its
  \<^verbatim>\<open>left\<close>, \<^verbatim>\<open>top\<close>, \<^verbatim>\<open>width\<close> and \<^verbatim>\<open>height\<close>. The doubly linked list from \<^verbatim>\<open>_head\<close> to
  \<^verbatim>\<open>_tail\<close> is the list \<open>children\<close> of the observers' addresses, head first. The four
  timers, the resize observer, the scroll listener and the entry of the container in
  the registry \<^verbatim>\<open>scrollContainers\<close> are kept as one flag: \<open>active\<close> holds from the
  construction until \<^verbatim>\<open>revert()\<close> cancels and removes them all.
\<close>

type_synonym oid = nat

record container =
  useWin :: bool
  winWidth :: real
  winHeight :: real
  c_width :: real
  c_height :: real
  c_left :: real
  c_top :: real
  zIndex :: nat
  scrollX :: real
  scrollY :: real
  prevScrollX :: real
  prevScrollY :: real
  scrollWidth :: real
  scrollHeight :: real
  velocity :: real
  backwardX :: bool
  backwardY :: bool
  children :: "oid list"
  active :: bool

text \<open>
  The value of a callback field of an observer: \<^verbatim>\<open>noop\<close>, one of the closures that the
  constructor builds from a method name (\<^verbatim>\<open>linked && linked[m] ? linked[m]() : null\<close>), or
  a function of the caller, known by a number. A function of the caller is taken not
  to write to the observer or to its container.
\<close>

datatype callback = Noop | SyncMethod string | UserCallback nat

text \<open>
  An easing function is known by its name: \<open>EaseNone\<close> is the function \<^verbatim>\<open>none\<close> of the
  absent eases.js, with which the constructor compares.
\<close>

datatype easing = EaseNone | EaseFn nat

datatype ident = IdNum nat | IdStr string

text \<open>
  The fields \<^verbatim>\<open>enter\<close> and \<^verbatim>\<open>leave\<close>: a string, an object with the optional properties
  \<^verbatim>\<open>container\<close> and \<^verbatim>\<open>target\<close> (in this order), a number, or anything else (\<^verbatim>\<open>null\<close>).
\<close>

datatype threshold = ThStr string | ThObj "stv option" "stv option" | ThNum real | ThOther

text \<open>
  A \<^verbatim>\<open>ScrollObserver\<close>. \<open>ident\<close> is its \<^verbatim>\<open>id\<close>, \<open>debugOn\<close> its \<^verbatim>\<open>_debug\<close>, \<open>debugEl\<close> tells
  whether \<^verbatim>\<open>$debug\<close> holds an element, \<open>debugStyles\<close> whether \<^verbatim>\<open>debugStyles\<close> holds a
  value. \<open>repeat\<close> and \<open>horizontal\<close> are \<^verbatim>\<open>null\<close> until the first refresh; the source
  tests them for truth only, so \<^verbatim>\<open>null\<close> is \<open>False\<close>. \<open>syncSmooth\<close> and \<open>syncEase\<close> are
  \<open>None\<close> for \<^verbatim>\<open>null\<close>. The linked object is of any type \<open>'l\<close>; the observer holds its
  current state. The elements \<^verbatim>\<open>target\<close> and \<^verbatim>\<open>container.element\<close> are not modelled: what
  the source reads from them is a parameter where it is read.
\<close>

record 'l observer =
  index :: nat
  ident :: ident
  linked :: "'l option"
  repeat :: bool
  horizontal :: bool
  enter :: threshold
  leave :: threshold
  sync :: bool
  syncEase :: "easing option"
  syncSmooth :: "real option"
  onSyncEnter :: callback
  onSyncLeave :: callback
  onSyncEnterForward :: callback
  onSyncLeaveForward :: callback
  onSyncEnterBackward :: callback
  onSyncLeaveBackward :: callback
  onEnter :: callback
  onLeave :: callback
  onEnterForward :: callback
  onLeaveForward :: callback
  onEnterBackward :: callback
  onLeaveBackward :: callback
  onUpdate :: callback
  onSyncComplete :: callback
  reverted :: bool
  completed :: bool
  began :: bool
  isInView :: bool
  forceEnter :: bool
  hasEntered :: bool
  offset :: real
  offsetStart :: real
  offsetEnd :: real
  distance :: real
  prevProgress :: real
  thresholds :: "stv list"
  coords :: "real list"
  debugStyles :: bool
  debugEl :: bool
  debugOn :: bool

text \<open>
  What a method of an observer does to the world outside is recorded in a trace: the
  call of a callback field, the call of a method of the linked object, a seek of the
  linked object, a restart of the wake timer of the container.
\<close>

datatype slot =
  OnSyncEnter | OnSyncLeave | OnSyncEnterForward | OnSyncLeaveForward
| OnSyncEnterBackward | OnSyncLeaveBackward | OnEnter | OnLeave | OnEnterForward
| OnLeaveForward | OnEnterBackward | OnLeaveBackward | OnUpdate | OnSyncComplete

datatype event =
  Fired oid slot
| LinkedCall oid string
| LinkedSeek oid real bool
| WakeRestart

text \<open>
  A method runs on a frame: the observer \<^verbatim>\<open>this\<close>, its container and the trace. The
  address of \<^verbatim>\<open>this\<close> is passed to each method.
\<close>

record 'l frame =
  ob :: "'l observer"
  ct :: container
  tr :: "event list"

text \<open>
  The collaborators that are not part of the sources: \<^verbatim>\<open>lerp(start, end, amount, false)\<close>,
  the application of an easing function, and the linked object with the members that
  the source reads and calls (\<^verbatim>\<open>progress\<close>, \<^verbatim>\<open>duration\<close>, \<^verbatim>\<open>completed\<close>, \<^verbatim>\<open>currentTime\<close>,
  \<^verbatim>\<open>seek(time, muteCallbacks)\<close>, whether \<^verbatim>\<open>linked[m]\<close> is defined, and its call).
\<close>

record 'l collab =
  lerp :: "real \<Rightarrow> real \<Rightarrow> real \<Rightarrow> real"
  ease :: "easing \<Rightarrow> real \<Rightarrow> real"
  lk_progress :: "'l \<Rightarrow> real"
  lk_duration :: "'l \<Rightarrow> real"
  lk_completed :: "'l \<Rightarrow> bool"
  lk_currentTime :: "'l \<Rightarrow> real"
  lk_seek :: "real \<Rightarrow> bool \<Rightarrow> 'l \<Rightarrow> 'l"
  lk_has :: "string \<Rightarrow> 'l \<Rightarrow> bool"
  lk_call :: "string \<Rightarrow> 'l \<Rightarrow> 'l"

text \<open>
  What \<^verbatim>\<open>updateBounds\<close> and \<^verbatim>\<open>debug\<close> read from the document: the bounding rectangle of
  the target, measured while the linked object is in a given state, the unit
  conversion on the target, and whether the computed position of the container's
  element is \<^verbatim>\<open>static\<close>.
\<close>

record rect =
  r_left :: real
  r_top :: real
  r_width :: real
  r_height :: real

record 'l dom =
  boundingRect :: "'l option \<Rightarrow> rect"
  convertValueUnit :: "real \<Rightarrow> string \<Rightarrow> real"
  positionStatic :: bool

section \<open>The observer: getters, callbacks, detaching\<close>

definition backward :: "'l observer \<Rightarrow> container \<Rightarrow> bool" where
  "backward this c = (if horizontal this then backwardX c else backwardY c)"

definition scroll :: "'l observer \<Rightarrow> container \<Rightarrow> real" where
  "scroll this c = (if horizontal this then scrollX c else scrollY c)"

text \<open>
  The getter \<^verbatim>\<open>progress\<close>. The quotient \<open>p\<close> is \<^verbatim>\<open>Infinity\<close>, \<^verbatim>\<open>-Infinity\<close>, \<^verbatim>\<open>NaN\<close> or
  finite. The source returns 0 for the first and the third; \<^verbatim>\<open>-Infinity\<close> goes through
  \<^verbatim>\<open>clamp\<close>, where it is less than the lower bound 0.
\<close>

definition progress :: "'l observer \<Rightarrow> container \<Rightarrow> real" where
  "progress this c =
     (case js_div (scroll this c - offsetStart this) (distance this) of
        PosInf \<Rightarrow> 0
      | NaN \<Rightarrow> 0
      | NegInf \<Rightarrow> round_js 0 6
      | Fin p \<Rightarrow> round_js (clamp p 0 1) 6)"

definition slot_field :: "slot \<Rightarrow> 'l observer \<Rightarrow> callback" where
  "slot_field sl this =
     (case sl of
        OnSyncEnter \<Rightarrow> onSyncEnter this
      | OnSyncLeave \<Rightarrow> onSyncLeave this
      | OnSyncEnterForward \<Rightarrow> onSyncEnterForward this
      | OnSyncLeaveForward \<Rightarrow> onSyncLeaveForward this
      | OnSyncEnterBackward \<Rightarrow> onSyncEnterBackward this
      | OnSyncLeaveBackward \<Rightarrow> onSyncLeaveBackward this
      | OnEnter \<Rightarrow> onEnter this
      | OnLeave \<Rightarrow> onLeave this
      | OnEnterForward \<Rightarrow> onEnterForward this
      | OnLeaveForward \<Rightarrow> onLeaveForward this
      | OnEnterBackward \<Rightarrow> onEnterBackward this
      | OnLeaveBackward \<Rightarrow> onLeaveBackward this
      | OnUpdate \<Rightarrow> onUpdate this
      | OnSyncComplete \<Rightarrow> onSyncComplete this)"

definition call :: "'l collab \<Rightarrow> oid \<Rightarrow> slot \<Rightarrow> 'l frame \<Rightarrow> 'l frame" where
  \<comment> \<open>\<^verbatim>\<open>this.onEnter(this)\<close> and the like: the call of the field is recorded; a method
      closure calls the method of the linked object when both are there.\<close>
  "call K i sl s =
     (let s1 = s\<lparr>tr := tr s @ [Fired i sl]\<rparr>
      in case slot_field sl (ob s) of
           SyncMethod m \<Rightarrow>
             (case linked (ob s) of
                Some l \<Rightarrow>
                  if lk_has K m l
                  then s1\<lparr>ob := (ob s)\<lparr>linked := Some (lk_call K m l)\<rparr>,
                          tr := tr s1 @ [LinkedCall i m]\<rparr>
                  else s1
              | None \<Rightarrow> s1)
         | _ \<Rightarrow> s1)"

definition seek :: "'l collab \<Rightarrow> oid \<Rightarrow> real \<Rightarrow> bool \<Rightarrow> 'l frame \<Rightarrow> 'l frame" where
  \<comment> \<open>\<^verbatim>\<open>linked.seek(t, mute)\<close>; every seek of the source is guarded by \<^verbatim>\<open>linked\<close>.\<close>
  "seek K i t mute s =
     (case linked (ob s) of
        Some l \<Rightarrow> s\<lparr>ob := (ob s)\<lparr>linked := Some (lk_seek K t mute l)\<rparr>,
                     tr := tr s @ [LinkedSeek i t mute]\<rparr>
      | None \<Rightarrow> s)"

definition removeDebug :: "'l frame \<Rightarrow> 'l frame" where
  "removeDebug s0 =
     (let s = (if debugEl (ob s0) then s0\<lparr>ob := (ob s0)\<lparr>debugEl := False\<rparr>\<rparr> else s0);
          s = (if debugStyles (ob s) then s\<lparr>ob := (ob s)\<lparr>debugEl := False\<rparr>\<rparr> else s)
      in s)"

definition debug :: "'l dom \<Rightarrow> 'l frame \<Rightarrow> 'l frame" where
  \<comment> \<open>\<^verbatim>\<open>debug()\<close>: of the overlay only what is state of the observer and of the container,
      the element in \<^verbatim>\<open>$debug\<close>, \<^verbatim>\<open>container.zIndex++\<close> and \<^verbatim>\<open>debugStyles\<close>.\<close>
  "debug D s0 =
     (let s = removeDebug s0;
          s = s\<lparr>ct := (ct s)\<lparr>zIndex := zIndex (ct s) + 1\<rparr>\<rparr>;
          s = s\<lparr>ob := (ob s)\<lparr>debugEl := True\<rparr>\<rparr>
      in if positionStatic D then s\<lparr>ob := (ob s)\<lparr>debugStyles := True\<rparr>\<rparr> else s)"

definition addChild :: "container \<Rightarrow> oid \<Rightarrow> container" where
  \<comment> \<open>Modelled from the spec: \<^verbatim>\<open>addChild(parent, child)\<close> of helpers.js, which is absent;
      "an ordered collection of attached View Observers (insertion-ordered)".\<close>
  "addChild c i = c\<lparr>children := children c @ [i]\<rparr>"

definition removeChild :: "container \<Rightarrow> oid \<Rightarrow> container" where
  \<comment> \<open>Modelled from the spec: \<^verbatim>\<open>removeChild(parent, child)\<close> of helpers.js, which is absent;
      "detach(observer): O(1) list splice". A node is in the list at most once.\<close>
  "removeChild c i = c\<lparr>children := removeAll i (children c)\<rparr>"

definition container_revert :: "container \<Rightarrow> container" where
  \<comment> \<open>\<^verbatim>\<open>ScrollContainer.revert()\<close>.\<close>
  "container_revert c = c\<lparr>active := False\<rparr>"

definition revert :: "oid \<Rightarrow> 'l frame \<Rightarrow> 'l frame" where
  "revert i s0 =
     (if reverted (ob s0) then s0
      else
        (let s = s0\<lparr>ct := removeChild (ct s0) i\<rparr>;
             s = (if children (ct s) = [] then s\<lparr>ct := container_revert (ct s)\<rparr> else s);
             s = (if debugOn (ob s) then removeDebug s else s)
         in s\<lparr>ob := (ob s)\<lparr>reverted := True\<rparr>\<rparr>))"

section \<open>The observer: handleScroll\<close>

definition truthy :: "real option \<Rightarrow> bool" where
  \<comment> \<open>The truth of a field that holds a number or \<^verbatim>\<open>null\<close>.\<close>
  "truthy x = (case x of None \<Rightarrow> False | Some v \<Rightarrow> v \<noteq> 0)"

definition beganBlock :: "bool \<Rightarrow> real \<Rightarrow> 'l frame \<Rightarrow> 'l frame" where
  "beganBlock isBefore p s0 =
     (let s = (if isBefore \<and> began (ob s0) then s0\<lparr>ob := (ob s0)\<lparr>began := False\<rparr>\<rparr> else s0)
      in if 0 < p \<and> \<not> began (ob s) then s\<lparr>ob := (ob s)\<lparr>began := True\<rparr>\<rparr> else s)"

definition syncProgress :: "'l collab \<Rightarrow> 'l observer \<Rightarrow> real \<Rightarrow> real \<Rightarrow> real" where
  \<comment> \<open>The progress \<open>p\<close> as the block under \<^verbatim>\<open>if (shouldSeek)\<close> assigns it; \<open>lp\<close> is
      \<^verbatim>\<open>linked.progress\<close>.\<close>
  "syncProgress K this lp p =
     (let eased = (case syncEase this of Some e \<Rightarrow> ease K e p | None \<Rightarrow> p)
      in case syncSmooth this of
           None \<Rightarrow> eased
         | Some k \<Rightarrow>
             if k \<noteq> 0 then
               (if k < 1 then
                  (let step = 1 / 10000;
                       snap = (if lp < p \<and> p = 1 then step
                               else if p < lp \<and> p = 0 then - step else 0)
                   in round_js (lerp K lp p (interpolate (1 / 100) (2 / 10) k) + snap) 6)
                else p)
             else eased)"

definition enterBlock :: "'l collab \<Rightarrow> oid \<Rightarrow> bool \<Rightarrow> bool \<Rightarrow> 'l frame \<Rightarrow> 'l frame" where
  \<comment> \<open>"Trigger enter callbacks if already in view or when entering the view";
      \<open>inView\<close> and \<open>forceEnterL\<close> are the constants \<^verbatim>\<open>isInView\<close> and \<^verbatim>\<open>forceEnter\<close>.\<close>
  "enterBlock K i inView forceEnterL s0 =
     (if (inView \<and> \<not> isInView (ob s0)) \<or>
         (forceEnterL \<and> \<not> forceEnter (ob s0) \<and> \<not> hasEntered (ob s0))
      then
        (let s = (if inView then s0\<lparr>ob := (ob s0)\<lparr>isInView := True\<rparr>\<rparr> else s0)
         in if \<not> forceEnter (ob s) \<or> \<not> hasEntered (ob s) then
              (let s = (if debugOn (ob s) \<and> debugEl (ob s) \<and> inView
                        then s\<lparr>ct := (ct s)\<lparr>zIndex := zIndex (ct s) + 1\<rparr>\<rparr> else s);
                   s = call K i OnSyncEnter s;
                   s = call K i OnEnter s;
                   s = (if backward (ob s) (ct s)
                        then call K i OnEnterBackward (call K i OnSyncEnterBackward s)
                        else call K i OnEnterForward (call K i OnSyncEnterForward s));
                   s = s\<lparr>ob := (ob s)\<lparr>hasEntered := True\<rparr>\<rparr>
               in if forceEnterL then s\<lparr>ob := (ob s)\<lparr>forceEnter := True\<rparr>\<rparr> else s)
            else if inView then s\<lparr>ob := (ob s)\<lparr>forceEnter := False\<rparr>\<rparr>
            else s)
      else s0)"

definition updateBlock ::
  "'l collab \<Rightarrow> oid \<Rightarrow> bool \<Rightarrow> bool \<Rightarrow> bool \<Rightarrow> real \<Rightarrow> 'l frame \<Rightarrow> 'l frame"
where
  \<comment> \<open>The two statements \<^verbatim>\<open>if (isInView || !isInView && this.isInView) hasUpdated = true\<close>
      and \<^verbatim>\<open>if (hasUpdated) {...}\<close>; \<open>hasUpdated0\<close> is the local before them.\<close>
  "updateBlock K i shouldSeek hasUpdated0 inView p s0 =
     (let hasUpdated = (hasUpdated0 \<or> inView \<or> (\<not> inView \<and> isInView (ob s0)))
      in if hasUpdated then
           call K i OnUpdate
             (if shouldSeek then
                (case linked (ob s0) of
                   Some l \<Rightarrow> seek K i (lk_duration K l * p) False s0
                 | None \<Rightarrow> s0)
              else s0)
         else s0)"

definition leaveBlock ::
  "'l collab \<Rightarrow> oid \<Rightarrow> bool \<Rightarrow> bool \<Rightarrow> real option \<Rightarrow> bool \<Rightarrow> 'l frame \<Rightarrow> bool \<times> 'l frame"
where
  \<comment> \<open>The statement \<^verbatim>\<open>if (!isInView && this.isInView) {...}\<close>; it assigns to the local
      \<^verbatim>\<open>syncCompleted\<close>, which is returned with the frame. \<open>syncOn\<close> and \<open>syncSmoothV\<close> are
      the constants \<^verbatim>\<open>sync\<close> and \<^verbatim>\<open>syncSmooth\<close>.\<close>
  "leaveBlock K i inView syncOn syncSmoothV syncCompleted s0 =
     (if \<not> inView \<and> isInView (ob s0) then
        (let s = s0\<lparr>ob := (ob s0)\<lparr>isInView := False\<rparr>\<rparr>;
             s = call K i OnSyncLeave s;
             s = call K i OnLeave s;
             s = (if backward (ob s) (ct s)
                  then call K i OnLeaveBackward (call K i OnSyncLeaveBackward s)
                  else call K i OnLeaveForward (call K i OnSyncLeaveForward s))
         in (if syncOn \<and> \<not> truthy syncSmoothV then True else syncCompleted, s))
      else (syncCompleted, s0))"

definition completeBlock :: "'l collab \<Rightarrow> oid \<Rightarrow> real \<Rightarrow> bool \<Rightarrow> 'l frame \<Rightarrow> 'l frame" where
  \<comment> \<open>The statement \<^verbatim>\<open>if (p >= 1 && this.began && !this.completed && (...)) {...}\<close>.\<close>
  "completeBlock K i p syncCompleted s0 =
     (if 1 \<le> p \<and> began (ob s0) \<and> \<not> completed (ob s0) \<and>
         ((sync (ob s0) \<and> syncCompleted) \<or> \<not> sync (ob s0))
      then
        (let s = (if sync (ob s0) then call K i OnSyncComplete s0 else s0);
             s = s\<lparr>ob := (ob s)\<lparr>completed := True\<rparr>\<rparr>
         in if (\<not> repeat (ob s) \<and> linked (ob s) = None) \<or>
               (\<not> repeat (ob s) \<and>
                (case linked (ob s) of Some l \<Rightarrow> lk_completed K l | None \<Rightarrow> False))
            then revert i s else s)
      else s0)"

definition finishBlock :: "real \<Rightarrow> 'l frame \<Rightarrow> 'l frame" where
  \<comment> \<open>The last two statements, \<^verbatim>\<open>if (p < 1 && this.completed) {...}\<close> and
      \<^verbatim>\<open>this.prevProgress = p\<close>.\<close>
  "finishBlock p s0 =
     (let s = (if p < 1 \<and> completed (ob s0) then s0\<lparr>ob := (ob s0)\<lparr>completed := False\<rparr>\<rparr>
               else s0)
      in s\<lparr>ob := (ob s)\<lparr>prevProgress := p\<rparr>\<rparr>)"

definition wakeBlock :: "bool \<Rightarrow> 'l frame \<Rightarrow> 'l frame" where
  \<comment> \<open>\<^verbatim>\<open>if (...) container.wakeTicker.restart()\<close>.\<close>
  "wakeBlock cond s = (if cond then s\<lparr>tr := tr s @ [WakeRestart]\<rparr> else s)"

text \<open>
  \<^verbatim>\<open>handleScroll()\<close>. The statements of the source that write to the observer are the
  blocks above, in the order of the source. The constants of the source keep their
  names but for \<open>sc\<close> (\<^verbatim>\<open>scroll\<close>), \<open>inView\<close> (\<^verbatim>\<open>isInView\<close>) and \<open>forceEnterL\<close>
  (\<^verbatim>\<open>forceEnter\<close>), which the source also has as fields; \<open>lp\<close> is read only where
  \<open>shouldSeek\<close> holds. The lines that style the debug overlay write nothing that the
  observer reads, but for \<^verbatim>\<open>container.zIndex++\<close> in the enter block.
\<close>

definition handleScroll :: "'l collab \<Rightarrow> oid \<Rightarrow> 'l frame \<Rightarrow> 'l frame" where
  "handleScroll K i s0 =
     (let this = ob s0;
          shouldSeek =
            (linked this \<noteq> None \<and> (syncEase this \<noteq> None \<or> truthy (syncSmooth this)));
          sc = scroll this (ct s0);
          isBefore = (sc \<le> offsetStart this);
          isAfter = (offsetEnd this \<le> sc);
          inView = (\<not> isBefore \<and> \<not> isAfter);
          isOnTheEdge = (sc = offsetStart this \<or> sc = offsetEnd this);
          forceEnterL = (\<not> hasEntered this \<and> isOnTheEdge);
          p0 = progress this (ct s0);
          s = beganBlock isBefore p0 s0;
          lp = (case linked this of Some l \<Rightarrow> lk_progress K l | None \<Rightarrow> 0);
          p = (if shouldSeek then syncProgress K this lp p0 else p0);
          hasUpdated = (shouldSeek \<and> p \<noteq> prevProgress this);
          syncCompleted = (shouldSeek \<and> lp = 1);
          s = wakeBlock (hasUpdated \<and> \<not> syncCompleted \<and> truthy (syncSmooth this) \<and> lp \<noteq> 0) s;
          s = enterBlock K i inView forceEnterL s;
          s = updateBlock K i shouldSeek hasUpdated inView p s;
          (syncCompleted, s) =
            leaveBlock K i inView (sync this) (syncSmooth this) syncCompleted s;
          s = completeBlock K i p syncCompleted s
      in finishBlock p s)"

section \<open>The observer: updateBounds\<close>

definition thresholdPair :: "threshold \<Rightarrow> stv \<Rightarrow> stv \<Rightarrow> stv \<times> stv" where
  \<comment> \<open>The container part and the target part of \<^verbatim>\<open>enter\<close> (and of \<^verbatim>\<open>leave\<close>: the source
      has the same lines twice), given the values they have before.\<close>
  "thresholdPair th defaultContainer defaultTarget =
     (case th of
        ThStr str \<Rightarrow>
          (let splitted = split_js str '' ''
           in (Str (at_js splitted 0),
               if 1 < length splitted then Str (at_js splitted 1) else defaultTarget))
      | ThObj c t \<Rightarrow>
          ((case c of Some v \<Rightarrow> v | None \<Rightarrow> defaultContainer),
           (case t of Some v \<Rightarrow> v | None \<Rightarrow> defaultTarget))
      | ThNum x \<Rightarrow> (Num x, defaultTarget)
      | ThOther \<Rightarrow> (defaultContainer, defaultTarget))"

text \<open>
  \<^verbatim>\<open>updateBounds()\<close>. The loop over the ancestors of the target overrides the position
  of the sticky ones and \<^verbatim>\<open>stickys.forEach\<close> restores them: both write to the document
  only, and the rectangle that \<open>boundingRect\<close> gives is the one measured in between.
\<close>

definition updateBounds :: "'l collab \<Rightarrow> 'l dom \<Rightarrow> oid \<Rightarrow> 'l frame \<Rightarrow> 'l frame" where
  "updateBounds K D i s0 =
     (let s = (if debugOn (ob s0) then removeDebug s0 else s0);
          container = ct s;
          isHori = horizontal (ob s);
          linkedTime = map_option (lk_currentTime K) (linked (ob s));
          s = (case linked (ob s) of Some l \<Rightarrow> seek K i 0 True s | None \<Rightarrow> s);
          rect = boundingRect D (linked (ob s));
          off = (if isHori then r_left rect + scrollX container - c_left container
                 else r_top rect + scrollY container - c_top container);
          targetSize = (if isHori then r_width rect else r_height rect);
          containerSize = (if isHori then c_width container else c_height container);
          scrollSize = (if isHori then scrollWidth container else scrollHeight container);
          maxScroll = scrollSize - containerSize;
          (enterContainer, enterTarget) =
            thresholdPair (enter (ob s)) (Str ''end'') (Str ''start'');
          (leaveContainer, leaveTarget) =
            thresholdPair (leave (ob s)) (Str ''start'') (Str ''end'');
          cvu = convertValueUnit D;
          parsedEnterTarget = parseBoundValue cvu enterTarget targetSize None None;
          parsedLeaveTarget = parseBoundValue cvu leaveTarget targetSize None None;
          underPx = (parsedEnterTarget + off) - containerSize;
          overPx = (parsedLeaveTarget + off) - maxScroll;
          parsedEnterContainer =
            parseBoundValue cvu enterContainer containerSize (Some underPx) (Some overPx);
          parsedLeaveContainer =
            parseBoundValue cvu leaveContainer containerSize (Some underPx) (Some overPx);
          offsetStart' = parsedEnterTarget + off - parsedEnterContainer;
          offsetEnd' = parsedLeaveTarget + off - parsedLeaveContainer;
          scrollDelta = offsetEnd' - offsetStart';
          s = s\<lparr>ob := (ob s)
                 \<lparr>offset := off,
                  offsetStart := offsetStart',
                  offsetEnd := offsetEnd',
                  distance := (if scrollDelta \<le> 0 then 0 else scrollDelta),
                  thresholds := [enterTarget, leaveTarget, enterContainer, leaveContainer],
                  coords := [parsedEnterTarget, parsedLeaveTarget,
                             parsedEnterContainer, parsedLeaveContainer]\<rparr>\<rparr>;
          s = (case linkedTime of Some t \<Rightarrow> seek K i t True s | None \<Rightarrow> s)
      in if debugOn (ob s) then debug D s else s)"

section \<open>The container: scroll events, samples and ticks\<close>

text \<open>
  A world: one container, the observers by address, the trace. An observer that was
  never constructed is never in \<open>children\<close>.
\<close>

record 'l world =
  w_container :: container
  w_observers :: "oid \<Rightarrow> 'l observer"
  w_trace :: "event list"

definition with_observer :: "oid \<Rightarrow> ('l frame \<Rightarrow> 'l frame) \<Rightarrow> 'l world \<Rightarrow> 'l world" where
  \<comment> \<open>A method of the observer at address \<open>i\<close>, run in the world.\<close>
  "with_observer i f w =
     (let s = f \<lparr>ob = w_observers w i, ct = w_container w, tr = w_trace w\<rparr>
      in w\<lparr>w_container := ct s, w_observers := (w_observers w)(i := ob s), w_trace := tr s\<rparr>)"

definition forEachChildren ::
  "'l world \<Rightarrow> (oid \<Rightarrow> 'l world \<Rightarrow> 'l world) \<Rightarrow> bool \<Rightarrow> 'l world"
where
  \<comment> \<open>Modelled from the spec: \<^verbatim>\<open>forEachChildren(parent, callback, reverse)\<close> of helpers.js,
      which is absent; "for every attached observer, invoke its per-frame re-evaluation;
      traversal order reverses when either axis is currently moving backward", with
      "detach mid-traversal without invalidating the current iteration position": the
      traversal is over the list as it is at the start, and a callback of this file
      detaches no observer but its own.\<close>
  "forEachChildren w callback reverse =
     foldl (\<lambda>w' child. callback child w') w
       (if reverse then rev (children (w_container w)) else children (w_container w))"

definition scrollTicker_onUpdate :: "'l collab \<Rightarrow> 'l world \<Rightarrow> 'l world" where
  \<comment> \<open>\<^verbatim>\<open>onUpdate\<close> of \<^verbatim>\<open>scrollTicker\<close>: one tick of the container.\<close>
  "scrollTicker_onUpdate K w =
     (let backwards = (backwardX (w_container w) \<or> backwardY (w_container w))
      in forEachChildren w (\<lambda>child. with_observer child (handleScroll K child)) backwards)"

definition container_handleScroll :: "real \<Rightarrow> real \<Rightarrow> 'l world \<Rightarrow> 'l world" where
  \<comment> \<open>\<^verbatim>\<open>ScrollContainer.handleScroll()\<close>: \<^verbatim>\<open>updateScrollCoords()\<close>, where \<open>x\<close> and \<open>y\<close> are
      the scroll offsets read from the window or the element, and the restart of the
      wake timer.\<close>
  "container_handleScroll x y w =
     w\<lparr>w_container := (w_container w)\<lparr>scrollX := round_js x 0, scrollY := round_js y 0\<rparr>,
       w_trace := w_trace w @ [WakeRestart]\<rparr>"

definition dataTimer_onUpdate :: "real \<Rightarrow> container \<Rightarrow> container" where
  \<comment> \<open>\<^verbatim>\<open>onUpdate\<close> of \<^verbatim>\<open>dataTimer\<close>; \<open>dt\<close> is \<^verbatim>\<open>self.deltaTime\<close>.\<close>
  "dataTimer_onUpdate dt c =
     (let px = prevScrollX c; py = prevScrollY c;
          nx = scrollX c; ny = scrollY c;
          dx = px - nx; dy = py - ny;
          c = c\<lparr>prevScrollX := nx, prevScrollY := ny\<rparr>;
          c = (if dx \<noteq> 0 then c\<lparr>backwardX := (nx < px)\<rparr> else c);
          c = (if dy \<noteq> 0 then c\<lparr>backwardY := (ny < py)\<rparr> else c)
      in c\<lparr>velocity := round_js (if 0 < dt then sqrt (dx * dx + dy * dy) / dt else 0) 5\<rparr>)"

text \<open>What happens to a container from outside: a scroll event, a sample, a tick.\<close>

datatype input = ScrollEvent real real | Sample real | Tick

fun step :: "'l collab \<Rightarrow> input \<Rightarrow> 'l world \<Rightarrow> 'l world" where
  "step K (ScrollEvent x y) w = container_handleScroll x y w"
| "step K (Sample dt) w = w\<lparr>w_container := dataTimer_onUpdate dt (w_container w)\<rparr>"
| "step K Tick w = scrollTicker_onUpdate K w"

definition run :: "'l collab \<Rightarrow> input list \<Rightarrow> 'l world \<Rightarrow> 'l world" where
  "run K inputs w = foldl (\<lambda>w' x. step K x w') w inputs"

definition is_own :: "oid \<Rightarrow> event \<Rightarrow> bool" where
  \<comment> \<open>The events of the observer at address \<open>i\<close>.\<close>
  "is_own i e =
     (case e of
        Fired j sl \<Rightarrow> j = i
      | LinkedCall j m \<Rightarrow> j = i
      | LinkedSeek j t mute \<Rightarrow> j = i
      | WakeRestart \<Rightarrow> False)"

text \<open>
  A scroll sweep: the scroll coordinate of the observer's axis takes the values of a
  list in turn, and \<^verbatim>\<open>handleScroll()\<close> runs at each. The crossings of a trace are the
  calls of the enter and leave callbacks of an observer.
\<close>

definition scrollTo :: "real \<Rightarrow> 'l frame \<Rightarrow> 'l frame" where
  "scrollTo x s =
     (if horizontal (ob s) then s\<lparr>ct := (ct s)\<lparr>scrollX := x\<rparr>\<rparr>
      else s\<lparr>ct := (ct s)\<lparr>scrollY := x\<rparr>\<rparr>)"

fun sweep :: "'l collab \<Rightarrow> oid \<Rightarrow> real list \<Rightarrow> 'l frame \<Rightarrow> 'l frame" where
  "sweep K i [] s = s"
| "sweep K i (x # xs) s = sweep K i xs (handleScroll K i (scrollTo x s))"

definition is_crossing :: "oid \<Rightarrow> event \<Rightarrow> bool" where
  "is_crossing i e =
     (case e of
        Fired j sl \<Rightarrow> j = i \<and> sl \<noteq> OnUpdate \<and> sl \<noteq> OnSyncComplete
      | _ \<Rightarrow> False)"

definition crossings :: "oid \<Rightarrow> event list \<Rightarrow> event list" where
  "crossings i t = filter (is_crossing i) t"

section \<open>The observer: the constructor\<close>

text \<open>
  The parameter \<^verbatim>\<open>sync\<close>: \<^verbatim>\<open>null\<close>, a boolean, a number, a string or an easing function;
  the option that is not given (\<^verbatim>\<open>undefined\<close>) is \<open>None\<close>.
\<close>

datatype syncparam = SyncNull | SyncBool bool | SyncNum real | SyncStr string | SyncEase easing

record params =
  p_id :: "ident option"
  p_sync :: "syncparam option"
  p_debug :: "bool option"
  p_onEnter :: "nat option"
  p_onLeave :: "nat option"
  p_onEnterForward :: "nat option"
  p_onLeaveForward :: "nat option"
  p_onEnterBackward :: "nat option"
  p_onLeaveBackward :: "nat option"
  p_onUpdate :: "nat option"
  p_onSyncComplete :: "nat option"

definition setValue :: "'a option \<Rightarrow> 'a \<Rightarrow> 'a" where
  \<comment> \<open>Modelled from the spec: \<^verbatim>\<open>setValue(targetValue, defaultValue)\<close> of values.js, which
      is absent; a construction-time option that is not given takes its default.\<close>
  "setValue targetValue defaultValue =
     (case targetValue of None \<Rightarrow> defaultValue | Some v \<Rightarrow> v)"

definition sync_truthy :: "syncparam \<Rightarrow> bool" where
  "sync_truthy m =
     (case m of
        SyncNull \<Rightarrow> False
      | SyncBool b \<Rightarrow> b
      | SyncNum x \<Rightarrow> x \<noteq> 0
      | SyncStr str \<Rightarrow> str \<noteq> []
      | SyncEase e \<Rightarrow> True)"

definition or_noop :: "nat option \<Rightarrow> callback" where
  \<comment> \<open>\<^verbatim>\<open>parameters.onEnter || noop\<close> and the like.\<close>
  "or_noop f = (case f of Some k \<Rightarrow> UserCallback k | None \<Rightarrow> Noop)"

definition syncMethod_at :: "callback list option \<Rightarrow> bool \<Rightarrow> nat \<Rightarrow> callback" where
  \<comment> \<open>\<^verbatim>\<open>syncMethods && cond && syncMethods[k] ? syncMethods[k] : noop\<close>.\<close>
  "syncMethod_at syncMethods cond k =
     (case syncMethods of
        None \<Rightarrow> Noop
      | Some ms \<Rightarrow> if cond \<and> k < length ms then ms ! k else Noop)"

text \<open>
  The object that \<^verbatim>\<open>new ScrollObserver(parameters)\<close> builds when \<^verbatim>\<open>scrollerIndex\<close> is
  \<open>idx\<close>. \<open>parseEasings\<close> is the absent function of eases.js. The registration with
  the scope, \<^verbatim>\<open>addChild(this.container, this)\<close> and the refresh deferred to the next
  frame write to other objects and are not part of this function.
\<close>

definition constructor :: "(syncparam \<Rightarrow> easing) \<Rightarrow> params \<Rightarrow> nat \<Rightarrow> 'l observer" where
  "constructor parseEasings parameters idx =
     (let syncMode = setValue (p_sync parameters) (SyncStr ''play pause'');
          ease = (if sync_truthy syncMode then Some (parseEasings syncMode) else None);
          isLinear = (sync_truthy syncMode \<and>
                      (syncMode = SyncStr ''linear'' \<or> syncMode = SyncEase EaseNone));
          isEase = (sync_truthy syncMode \<and> \<not> (ease = Some EaseNone \<and> \<not> isLinear));
          isSmooth = (sync_truthy syncMode \<and>
                      ((case syncMode of SyncNum x \<Rightarrow> True | _ \<Rightarrow> False) \<or>
                       syncMode = SyncBool True \<or> isLinear));
          isMethods = (sync_truthy syncMode \<and>
                       ((case syncMode of SyncStr str \<Rightarrow> True | _ \<Rightarrow> False) \<and>
                        \<not> isEase \<and> \<not> isSmooth));
          syncMethods =
            (case syncMode of
               SyncStr str \<Rightarrow>
                 if isMethods then Some (map SyncMethod (split_js str '' '')) else None
             | _ \<Rightarrow> None);
          biDirSync = (case syncMethods of Some ms \<Rightarrow> isMethods \<and> 2 < length ms | None \<Rightarrow> False)
      in \<lparr>index = idx,
          ident = (case p_id parameters of Some v \<Rightarrow> v | None \<Rightarrow> IdNum idx),
          linked = None,
          repeat = False,
          horizontal = False,
          enter = ThOther,
          leave = ThOther,
          sync = (isEase \<or> isSmooth \<or> syncMethods \<noteq> None),
          syncEase = (if isEase then ease else None),
          syncSmooth =
            (if isSmooth then
               (if syncMode = SyncBool True \<or> isLinear then Some 1
                else (case syncMode of SyncNum x \<Rightarrow> Some x | _ \<Rightarrow> None))
             else None),
          onSyncEnter = syncMethod_at syncMethods (\<not> biDirSync) 0,
          onSyncLeave = syncMethod_at syncMethods (\<not> biDirSync) 1,
          onSyncEnterForward = syncMethod_at syncMethods biDirSync 0,
          onSyncLeaveForward = syncMethod_at syncMethods biDirSync 1,
          onSyncEnterBackward = syncMethod_at syncMethods biDirSync 2,
          onSyncLeaveBackward = syncMethod_at syncMethods biDirSync 3,
          onEnter = or_noop (p_onEnter parameters),
          onLeave = or_noop (p_onLeave parameters),
          onEnterForward = or_noop (p_onEnterForward parameters),
          onLeaveForward = or_noop (p_onLeaveForward parameters),
          onEnterBackward = or_noop (p_onEnterBackward parameters),
          onLeaveBackward = or_noop (p_onLeaveBackward parameters),
          onUpdate = or_noop (p_onUpdate parameters),
          onSyncComplete = or_noop (p_onSyncComplete parameters),
          reverted = False,
          completed = False,
          began = False,
          isInView = False,
          forceEnter = False,
          hasEntered = False,
          offset = 0,
          offsetStart = 0,
          offsetEnd = 0,
          distance = 0,
          prevProgress = 0,
          thresholds = [Str ''start'', Str ''end'', Str ''end'', Str ''start''],
          coords = [0, 0, 0, 0],
          debugStyles = False,
          debugEl = False,
          debugOn = setValue (p_debug parameters) False\<rparr>)"

section \<open>An example\<close>

text \<open>
  The end-to-end scenario of the specification: a page 1000 pixels high, and a watched
  element 200 pixels tall at the content offset 800, with the default thresholds. The
  observer is the one that the constructor builds from no parameters, after its first
  refresh has read the default options. The linked object of the example is a time
  cursor on a timeline of 1000 milliseconds that knows the methods \<open>play\<close> and \<open>pause\<close>.
\<close>

definition no_params :: params where
  "no_params =
     \<lparr>p_id = None, p_sync = None, p_debug = None, p_onEnter = None, p_onLeave = None,
      p_onEnterForward = None, p_onLeaveForward = None, p_onEnterBackward = None,
      p_onLeaveBackward = None, p_onUpdate = None, p_onSyncComplete = None\<rparr>"

definition named_easings :: "syncparam \<Rightarrow> easing" where
  \<comment> \<open>A \<^verbatim>\<open>parseEasings\<close>: a function is its own easing, \<open>inQuad\<close> names one, and
      everything else is \<^verbatim>\<open>none\<close>.\<close>
  "named_easings m =
     (case m of
        SyncEase e \<Rightarrow> e
      | SyncStr str \<Rightarrow> if str = ''inQuad'' then EaseFn 1 else EaseNone
      | _ \<Rightarrow> EaseNone)"

definition page :: container where
  "page =
     \<lparr>useWin = True, winWidth = 800, winHeight = 1000, c_width = 800, c_height = 1000,
      c_left = 0, c_top = 0, zIndex = 0, scrollX = 0, scrollY = 0, prevScrollX = 0,
      prevScrollY = 0, scrollWidth = 800, scrollHeight = 3000, velocity = 0,
      backwardX = False, backwardY = False, children = [0], active = True\<rparr>"

definition document :: "real dom" where
  "document =
     \<lparr>boundingRect = (\<lambda>l. \<lparr>r_left = 0, r_top = 800, r_width = 800, r_height = 200\<rparr>),
      convertValueUnit = (\<lambda>m u. m),
      positionStatic = True\<rparr>"

definition timeline :: "real collab" where
  "timeline =
     \<lparr>lerp = (\<lambda>a b t. a + (b - a) * t),
      ease = (\<lambda>e q. q),
      lk_progress = (\<lambda>l. l / 1000),
      lk_duration = (\<lambda>l. 1000),
      lk_completed = (\<lambda>l. 1000 \<le> l),
      lk_currentTime = (\<lambda>l. l),
      lk_seek = (\<lambda>t mute l. t),
      lk_has = (\<lambda>m l. m = ''play'' \<or> m = ''pause''),
      lk_call = (\<lambda>m l. l)\<rparr>"

definition watcher :: "real observer" where
  "watcher =
     (constructor named_easings no_params 0)
       \<lparr>repeat := True, enter := ThStr ''end start'', leave := ThStr ''start end''\<rparr>"

definition scene :: "real frame" where
  "scene = \<lparr>ob = watcher, ct = page, tr = []\<rparr>"

text \<open>
  The frame after the first refresh of the bounds; the same for an observer that is
  built with \<^verbatim>\<open>repeat: false\<close>, for one whose thresholds are inverted, and for one with
  the linked object at 250 milliseconds. A world of one frame.
\<close>

definition bounded :: "real frame" where
  "bounded = updateBounds timeline document 0 scene"

definition once :: "real frame" where
  "once = bounded\<lparr>ob := (ob bounded)\<lparr>repeat := False\<rparr>\<rparr>"

definition inverted :: "real frame" where
  "inverted = scene\<lparr>ob := watcher\<lparr>enter := ThStr ''start end'', leave := ThStr ''end start''\<rparr>\<rparr>"

definition playing :: "real frame" where
  "playing = scene\<lparr>ob := watcher\<lparr>linked := Some 250\<rparr>\<rparr>"

definition world_of :: "'l frame \<Rightarrow> 'l world" where
  "world_of s = \<lparr>w_container = ct s, w_observers = (\<lambda>j. ob s), w_trace = tr s\<rparr>"

section \<open>Notions for the properties\<close>

text \<open>
  The calls of the enter block and of the leave block, for a direction; the condition
  under which the enter block calls; and an observer that is in no list and has a
  given record of events.
\<close>

definition enterEvents :: "oid \<Rightarrow> bool \<Rightarrow> event list" where
  "enterEvents i bw =
     (if bw then [Fired i OnSyncEnter, Fired i OnEnter, Fired i OnSyncEnterBackward, Fired i OnEnterBackward]
      else [Fired i OnSyncEnter, Fired i OnEnter, Fired i OnSyncEnterForward, Fired i OnEnterForward])"

definition leaveEvents :: "oid \<Rightarrow> bool \<Rightarrow> event list" where
  "leaveEvents i bw =
     (if bw then [Fired i OnSyncLeave, Fired i OnLeave, Fired i OnSyncLeaveBackward, Fired i OnLeaveBackward]
      else [Fired i OnSyncLeave, Fired i OnLeave, Fired i OnSyncLeaveForward, Fired i OnLeaveForward])"

definition enters :: "bool \<Rightarrow> bool \<Rightarrow> 'l observer \<Rightarrow> bool" where
  "enters inView forceEnterL this =
     (((inView \<and> \<not> isInView this) \<or> (forceEnterL \<and> \<not> forceEnter this \<and> \<not> hasEntered this)) \<and>
      (\<not> forceEnter this \<or> \<not> hasEntered this))"

definition detached :: "oid \<Rightarrow> event list \<Rightarrow> 'l world \<Rightarrow> bool" where
  "detached i t w =
     (i \<notin> set (children (w_container w)) \<and> filter (is_own i) (w_trace w) = t)"

section \<open>Properties of the threshold resolver\<close>

lemmas resolver_defs = parseBoundValue_def convertValueToPx_def decomposeRawValue_def
  parse_number_def digits_val_def is_digit_def is_alpha_def split_js_def at_js_def
  getRelativeValue_def Let_def

lemma round_js_0: "round_js v 0 = of_int \<lfloor>v + 1 / 2\<rfloor>"
  by (simp add: round_js_def)

lemma round_js_mono: "a \<le> b \<Longrightarrow> round_js a d \<le> round_js b d"
proof -
  assume ab: "a \<le> b"
  have p: "(0::real) < 10 ^ d" by simp
  from ab have "a * 10 ^ d + 1 / 2 \<le> b * 10 ^ d + 1 / 2" by simp
  then have "\<lfloor>a * 10 ^ d + 1 / 2\<rfloor> \<le> \<lfloor>b * 10 ^ d + 1 / 2\<rfloor>" by (rule floor_mono)
  then have "real_of_int \<lfloor>a * 10 ^ d + 1 / 2\<rfloor> \<le> real_of_int \<lfloor>b * 10 ^ d + 1 / 2\<rfloor>" by simp
  then show ?thesis unfolding round_js_def using p by (simp add: divide_right_mono)
qed

lemma round_js_int: "v \<in> \<int> \<Longrightarrow> round_js v 0 = v"
proof -
  assume "v \<in> \<int>"
  then obtain k where v: "v = of_int k" by (auto elim: Ints_cases)
  have "\<lfloor>real_of_int k + 1 / 2\<rfloor> = k" by linarith
  then show ?thesis by (simp add: round_js_0 v)
qed


lemma round_js_zero: "round_js 0 d = 0"
  by (simp add: round_js_def)

lemma round_js_one: "round_js 1 d = 1"
proof -
  have "\<lfloor>(10::real) ^ d + 1 / 2\<rfloor> = 10 ^ d"
  proof -
    have "(10::real) ^ d = of_int (10 ^ d)" by simp
    then have "\<lfloor>(10::real) ^ d + 1 / 2\<rfloor> = \<lfloor>real_of_int (10 ^ d) + 1 / 2\<rfloor>" by simp
    also have "\<dots> = 10 ^ d" by linarith
    finally show ?thesis .
  qed
  then show ?thesis by (simp add: round_js_def)
qed

lemma convertValueToPx_max: "convertValueToPx cvu (Str ''max'') sz None None = sz"
  by (simp add: resolver_defs)

lemma convertValueToPx_min: "convertValueToPx cvu (Str ''min'') sz None None = 0"
  by (simp add: resolver_defs)

lemma convertValueToPx_max_under:
  "convertValueToPx cvu (Str ''max'') sz underPx overPx =
     sz + (case underPx of Some ud \<Rightarrow> if ud < 0 then ud else 0 | None \<Rightarrow> 0)"
  by (simp add: resolver_defs split: option.split)

lemma convertValueToPx_min_over:
  "convertValueToPx cvu (Str ''min'') sz underPx overPx =
     (case overPx of Some ov \<Rightarrow> if 0 < ov then ov else 0 | None \<Rightarrow> 0)"
  by (simp add: resolver_defs split: option.split)

lemma parseBoundValue_max:
  assumes "relativeValuesExec str = Some splitter"
    and "at_js (split_js str splitter) 0 = ''max''"
  shows "parseBoundValue cvu (Str str) sz underPx overPx =
     round_js (min (getRelativeValue sz
                      (convertValueToPx cvu (Str (at_js (split_js str splitter) 1)) sz underPx overPx)
                      (hd splitter))
                   (sz + (case underPx of Some ud \<Rightarrow> if ud < 0 then ud else 0 | None \<Rightarrow> 0))) 0"
  using assms
  by (simp add: parseBoundValue_def Let_def convertValueToPx_max convertValueToPx_max_under min_def)

lemma parseBoundValue_min:
  assumes "relativeValuesExec str = Some splitter"
    and "at_js (split_js str splitter) 0 = ''min''"
  shows "parseBoundValue cvu (Str str) sz underPx overPx =
     round_js (max (getRelativeValue 0
                      (convertValueToPx cvu (Str (at_js (split_js str splitter) 1)) sz underPx overPx)
                      (hd splitter))
                   (case overPx of Some ov \<Rightarrow> if 0 < ov then ov else 0 | None \<Rightarrow> 0)) 0"
  using assms
  by (simp add: parseBoundValue_def Let_def convertValueToPx_min convertValueToPx_min_over max_def)

text \<open>
  Claim C4, as the code has it. Let a string hold a relative-arithmetic operator, let
  its first operand be the keyword \<open>max\<close>, and let \<open>valueBPx\<close> be its second operand in
  pixels. Then \<open>parseBoundValue\<close> returns the rounding of the smaller of two numbers: the
  arithmetic result of the axis size and \<open>valueBPx\<close>, and the adjusted maximum, which is
  the axis size plus \<open>underPx\<close> when \<open>underPx\<close> is negative (\<open>overPx\<close> plays no part). So the
  result never exceeds the arithmetic result rounded to the nearest integer, nor the
  arithmetic result itself when that is an integer; for the operator \<open>-=\<close> the
  arithmetic result is size minus \<open>valueBPx\<close>. With the keyword \<open>min\<close> the result is the
  rounding of the larger of the arithmetic result of 0 and \<open>valueBPx\<close> and the adjusted
  minimum, which is \<open>overPx\<close> when \<open>overPx\<close> is positive, and so it is never less than the
  rounded arithmetic result. A quotient by zero is left out.
\<close>

theorem parseBoundValue_min_max_clamp:
  assumes "relativeValuesExec str = Some splitter"
    and "hd splitter = CHR ''/'' \<longrightarrow>
         convertValueToPx cvu (Str (at_js (split_js str splitter) 1)) sz underPx overPx \<noteq> 0"
  shows "(let valueBPx = convertValueToPx cvu (Str (at_js (split_js str splitter) 1)) sz underPx overPx;
              operator = hd splitter;
              result = parseBoundValue cvu (Str str) sz underPx overPx
          in (at_js (split_js str splitter) 0 = ''max'' \<longrightarrow>
                result = round_js (min (getRelativeValue sz valueBPx operator)
                        (sz + (case underPx of Some ud \<Rightarrow> if ud < 0 then ud else 0 | None \<Rightarrow> 0))) 0 \<and>
                result \<le> round_js (getRelativeValue sz valueBPx operator) 0 \<and>
                (getRelativeValue sz valueBPx operator \<in> \<int> \<longrightarrow>
                   result \<le> getRelativeValue sz valueBPx operator) \<and>
                (operator = CHR ''-'' \<longrightarrow> result \<le> round_js (sz - valueBPx) 0)) \<and>
             (at_js (split_js str splitter) 0 = ''min'' \<longrightarrow>
                result = round_js (max (getRelativeValue 0 valueBPx operator)
                        (case overPx of Some ov \<Rightarrow> if 0 < ov then ov else 0 | None \<Rightarrow> 0)) 0 \<and>
                round_js (getRelativeValue 0 valueBPx operator) 0 \<le> result \<and>
                (getRelativeValue 0 valueBPx operator \<in> \<int> \<longrightarrow>
                   getRelativeValue 0 valueBPx operator \<le> result)))"
proof -
  let ?B = "convertValueToPx cvu (Str (at_js (split_js str splitter) 1)) sz underPx overPx"
  let ?r = "parseBoundValue cvu (Str str) sz underPx overPx"
  have mx: "?r \<le> round_js (getRelativeValue sz ?B (hd splitter)) 0"
    if "at_js (split_js str splitter) 0 = ''max''"
    unfolding parseBoundValue_max [OF assms(1) that] by (rule round_js_mono) simp
  have mn: "round_js (getRelativeValue 0 ?B (hd splitter)) 0 \<le> ?r"
    if "at_js (split_js str splitter) 0 = ''min''"
    unfolding parseBoundValue_min [OF assms(1) that] by (rule round_js_mono) simp
  have sub: "getRelativeValue sz ?B (CHR ''-'') = sz - ?B"
    by (simp add: getRelativeValue_def)
  show ?thesis
    unfolding Let_def
    using mx mn parseBoundValue_max [OF assms(1)] parseBoundValue_min [OF assms(1)] sub
    by (auto simp: round_js_int)
qed

text \<open>
  The theorem at \<open>max-=50\<close> for the axis size 200, with an underflow of 30 and of 70
  pixels, and at \<open>min+=10\<close> with an overflow of 30 pixels.
\<close>

theorem parseBoundValue_min_max_clamp_witness:
  "relativeValuesExec ''max-=50'' = Some ''-='' \<and>
   at_js (split_js ''max-=50'' ''-='') 0 = ''max'' \<and>
   parseBoundValue (\<lambda>m u. m) (Str ''max-=50'') 200 (Some (- 30)) (Some 30) = 150 \<and>
   parseBoundValue (\<lambda>m u. m) (Str ''max-=50'') 200 (Some (- 70)) (Some 30) = 130 \<and>
   relativeValuesExec ''min+=10'' = Some ''+='' \<and>
   at_js (split_js ''min+=10'' ''+='') 0 = ''min'' \<and>
   parseBoundValue (\<lambda>m u. m) (Str ''min+=10'') 200 (Some (- 30)) (Some 30) = 30"
  using parseBoundValue_min_max_clamp [of "''max-=50''" "''-=''" "\<lambda>m u. m" 200 "Some (- 30)" "Some 30"]
    parseBoundValue_min_max_clamp [of "''max-=50''" "''-=''" "\<lambda>m u. m" 200 "Some (- 70)" "Some 30"]
    parseBoundValue_min_max_clamp [of "''min+=10''" "''+=''" "\<lambda>m u. m" 200 "Some (- 30)" "Some 30"]
  by (simp add: resolver_defs round_js_0)

text \<open>
  Claim C4 as it is stated fails where the arithmetic result is no integer: for the
  axis size 200.6 the string \<open>max-=50\<close> resolves to 151, which exceeds 150.6.
\<close>

theorem parseBoundValue_max_counterexample:
  "parseBoundValue (\<lambda>m u. m) (Str ''max-=50'') (1003 / 5) None None = 151 \<and>
   \<not> parseBoundValue (\<lambda>m u. m) (Str ''max-=50'') (1003 / 5) None None \<le> 1003 / 5 - 50"
  by (simp add: resolver_defs round_js_0)

lemma decomposeRawValue_keywords:
  "decomposeRawValue (Str ''top'') = (0, None)" "decomposeRawValue (Str ''left'') = (0, None)"
  "decomposeRawValue (Str ''start'') = (0, None)" "decomposeRawValue (Str ''min'') = (0, None)"
  "decomposeRawValue (Str ''bottom'') = (0, None)" "decomposeRawValue (Str ''right'') = (0, None)"
  "decomposeRawValue (Str ''end'') = (0, None)" "decomposeRawValue (Str ''max'') = (0, None)"
  "decomposeRawValue (Str ''center'') = (0, None)"
  by (simp_all add: decomposeRawValue_def parse_number_def digits_val_def is_digit_def is_alpha_def)

lemma decomposeRawValue_percent:
  "decomposeRawValue (Str ''100%'') = (100, Some ''%'')"
  "decomposeRawValue (Str ''50%'') = (50, Some ''%'')"
  "decomposeRawValue (Num x) = (x, None)"
  by (simp_all add: decomposeRawValue_def parse_number_def digits_val_def is_digit_def is_alpha_def)

lemma convertValueToPx_keyword:
  "convertValueToPx cvu (Str ''top'') sz underPx overPx = 0"
  "convertValueToPx cvu (Str ''left'') sz underPx overPx = 0"
  "convertValueToPx cvu (Str ''start'') sz underPx overPx = 0"
  "convertValueToPx cvu (Str ''bottom'') sz underPx overPx = sz"
  "convertValueToPx cvu (Str ''right'') sz underPx overPx = sz"
  "convertValueToPx cvu (Str ''end'') sz underPx overPx = sz"
  "convertValueToPx cvu (Str ''center'') sz underPx overPx = sz / 2"
  by (simp_all add: convertValueToPx_def Let_def decomposeRawValue_percent split: option.split)

lemma convertValueToPx_percent:
  assumes "decomposeRawValue (Str str) = (m, Some ''%'')"
  shows "convertValueToPx cvu (Str str) sz underPx overPx = m / 100 * sz"
proof -
  from assms have "str \<noteq> ''top''" "str \<noteq> ''left''" "str \<noteq> ''start''" "str \<noteq> ''min''"
    "str \<noteq> ''bottom''" "str \<noteq> ''right''" "str \<noteq> ''end''" "str \<noteq> ''max''" "str \<noteq> ''center''"
    using decomposeRawValue_keywords by auto
  then show ?thesis
    using assms by (simp add: convertValueToPx_def Let_def split: option.split)
qed

lemma convertValueToPx_plain:
  assumes "decomposeRawValue (Str str) = (m, None)" and "m \<noteq> 0"
  shows "convertValueToPx cvu (Str str) sz underPx overPx = m"
proof -
  from assms have "str \<noteq> ''top''" "str \<noteq> ''left''" "str \<noteq> ''start''" "str \<noteq> ''min''"
    "str \<noteq> ''bottom''" "str \<noteq> ''right''" "str \<noteq> ''end''" "str \<noteq> ''max''" "str \<noteq> ''center''"
    using decomposeRawValue_keywords by auto
  then show ?thesis
    using assms by (simp add: convertValueToPx_def Let_def split: option.split)
qed

lemma parseBoundValue_plain:
  assumes "relativeValuesExec str = None"
  shows "parseBoundValue cvu (Str str) sz underPx overPx =
     round_js (convertValueToPx cvu (Str str) sz underPx overPx) 0"
  using assms by (simp add: parseBoundValue_def)

lemma parseBoundValue_relative:
  assumes "relativeValuesExec str = Some splitter"
    and "at_js (split_js str splitter) 0 \<noteq> ''min''"
    and "at_js (split_js str splitter) 0 \<noteq> ''max''"
  shows "parseBoundValue cvu (Str str) sz underPx overPx =
     round_js (getRelativeValue
                 (convertValueToPx cvu (Str (at_js (split_js str splitter) 0)) sz underPx overPx)
                 (convertValueToPx cvu (Str (at_js (split_js str splitter) 1)) sz underPx overPx)
                 (hd splitter)) 0"
  using assms by (simp add: parseBoundValue_def Let_def)

lemma relativeValuesExec_keywords:
  "relativeValuesExec ''top'' = None" "relativeValuesExec ''left'' = None"
  "relativeValuesExec ''start'' = None" "relativeValuesExec ''bottom'' = None"
  "relativeValuesExec ''right'' = None" "relativeValuesExec ''end'' = None"
  "relativeValuesExec ''center'' = None"
  by simp_all

lemma fifty_plus_twenty:
  "relativeValuesExec ''50%+=20'' = Some ''+=''"
  "at_js (split_js ''50%+=20'' ''+='') 0 = ''50%''"
  "at_js (split_js ''50%+=20'' ''+='') 1 = ''20''"
  "decomposeRawValue (Str ''20'') = (20, None)"
  "at_js (split_js ''50%+=20'' ''+='') (Suc 0) = ''20''"
  by (simp_all add: split_js_def at_js_def decomposeRawValue_def parse_number_def digits_val_def
      is_digit_def is_alpha_def)

text \<open>
  Claim C5. For every axis size \<open>sz\<close>, whatever the unit conversion and the adjustments,
  \<open>parseBoundValue\<close> resolves the keywords \<open>top\<close>, \<open>left\<close> and \<open>start\<close> to 0, the keywords
  \<open>bottom\<close>, \<open>right\<close> and \<open>end\<close> to the size, and \<open>center\<close> to 50% of the size, each
  rounded to the nearest integer. A string without operator that decomposes into a
  magnitude \<open>m\<close> and the unit \<open>%\<close> resolves to \<open>m\<close> hundredths of the size, rounded. A
  string with a relative operator whose first operand is neither \<open>min\<close> nor \<open>max\<close>
  resolves to the rounding of the operator applied to its two operands in pixels: their
  sum for \<open>+=\<close>, their difference for \<open>-=\<close>, their product for \<open>*=\<close>, and their quotient
  for \<open>/=\<close> where the divisor is not zero. So \<open>50%+=20\<close> resolves to half the size plus
  20, rounded; and for the axis size 200 the results are 100 for \<open>center\<close>, 0 for
  \<open>start\<close>, 200 for \<open>end\<close> and 120 for \<open>50%+=20\<close>.
\<close>

theorem parseBoundValue_keywords:
  "parseBoundValue cvu (Str ''top'') sz underPx overPx = 0 \<and>
   parseBoundValue cvu (Str ''left'') sz underPx overPx = 0 \<and>
   parseBoundValue cvu (Str ''start'') sz underPx overPx = 0 \<and>
   parseBoundValue cvu (Str ''bottom'') sz underPx overPx = round_js sz 0 \<and>
   parseBoundValue cvu (Str ''right'') sz underPx overPx = round_js sz 0 \<and>
   parseBoundValue cvu (Str ''end'') sz underPx overPx = round_js sz 0 \<and>
   parseBoundValue cvu (Str ''center'') sz underPx overPx = round_js (50 / 100 * sz) 0 \<and>
   (relativeValuesExec str = None \<and> decomposeRawValue (Str str) = (m, Some ''%'') \<longrightarrow>
      parseBoundValue cvu (Str str) sz underPx overPx = round_js (m / 100 * sz) 0) \<and>
   (relativeValuesExec str = Some splitter \<and>
    at_js (split_js str splitter) 0 \<noteq> ''min'' \<and> at_js (split_js str splitter) 0 \<noteq> ''max'' \<longrightarrow>
      (let valueAPx = convertValueToPx cvu (Str (at_js (split_js str splitter) 0)) sz underPx overPx;
           valueBPx = convertValueToPx cvu (Str (at_js (split_js str splitter) 1)) sz underPx overPx;
           result = parseBoundValue cvu (Str str) sz underPx overPx
       in (hd splitter = CHR ''+'' \<longrightarrow> result = round_js (valueAPx + valueBPx) 0) \<and>
          (hd splitter = CHR ''-'' \<longrightarrow> result = round_js (valueAPx - valueBPx) 0) \<and>
          (hd splitter = CHR ''*'' \<longrightarrow> result = round_js (valueAPx * valueBPx) 0) \<and>
          (hd splitter = CHR ''/'' \<and> valueBPx \<noteq> 0 \<longrightarrow> result = round_js (valueAPx / valueBPx) 0))) \<and>
   parseBoundValue cvu (Str ''50%+=20'') sz underPx overPx = round_js (50 / 100 * sz + 20) 0 \<and>
   parseBoundValue cvu (Str ''center'') 200 underPx overPx = 100 \<and>
   parseBoundValue cvu (Str ''start'') 200 underPx overPx = 0 \<and>
   parseBoundValue cvu (Str ''end'') 200 underPx overPx = 200 \<and>
   parseBoundValue cvu (Str ''50%+=20'') 200 underPx overPx = 120"
proof -
  have kw: "parseBoundValue cvu (Str ''top'') sz underPx overPx = 0"
    "parseBoundValue cvu (Str ''left'') sz underPx overPx = 0"
    "parseBoundValue cvu (Str ''start'') sz underPx overPx = 0"
    "parseBoundValue cvu (Str ''bottom'') sz underPx overPx = round_js sz 0"
    "parseBoundValue cvu (Str ''right'') sz underPx overPx = round_js sz 0"
    "parseBoundValue cvu (Str ''end'') sz underPx overPx = round_js sz 0"
    "parseBoundValue cvu (Str ''center'') sz underPx overPx = round_js (50 / 100 * sz) 0" for sz
    by (simp_all add: parseBoundValue_plain relativeValuesExec_keywords convertValueToPx_keyword
        round_js_zero)
  have pc: "parseBoundValue cvu (Str str) sz underPx overPx = round_js (m / 100 * sz) 0"
    if "relativeValuesExec str = None" "decomposeRawValue (Str str) = (m, Some ''%'')"
    using that by (simp add: parseBoundValue_plain convertValueToPx_percent)
  have rl: "parseBoundValue cvu (Str str) sz underPx overPx =
     round_js (getRelativeValue
                 (convertValueToPx cvu (Str (at_js (split_js str splitter) 0)) sz underPx overPx)
                 (convertValueToPx cvu (Str (at_js (split_js str splitter) 1)) sz underPx overPx)
                 (hd splitter)) 0"
    if "relativeValuesExec str = Some splitter" "at_js (split_js str splitter) 0 \<noteq> ''min''"
      "at_js (split_js str splitter) 0 \<noteq> ''max''"
    using that by (rule parseBoundValue_relative)
  have ft: "parseBoundValue cvu (Str ''50%+=20'') sz underPx overPx = round_js (50 / 100 * sz + 20) 0"
    for sz
    by (simp add: parseBoundValue_relative [OF fifty_plus_twenty(1)] fifty_plus_twenty
        convertValueToPx_percent [OF decomposeRawValue_percent(2)]
        convertValueToPx_plain [OF fifty_plus_twenty(4)] getRelativeValue_def)
  have v: "round_js 200 0 = 200" "round_js 100 0 = 100" "round_js 120 0 = 120"
    by (simp_all add: round_js_int)
  have c: "parseBoundValue cvu (Str ''center'') 200 underPx overPx = 100"
    "parseBoundValue cvu (Str ''start'') 200 underPx overPx = 0"
    "parseBoundValue cvu (Str ''end'') 200 underPx overPx = 200"
    "parseBoundValue cvu (Str ''50%+=20'') 200 underPx overPx = 120"
    by (simp_all add: kw ft v)
  show ?thesis
    unfolding Let_def
    using kw [of sz] pc rl ft [of sz] c
    by (simp add: getRelativeValue_def)
qed

text \<open>
  The theorem for the axis size 200 at the percentage \<open>25%\<close>, which resolves to 50, and
  at the relative expression \<open>50%-=20\<close>, which resolves to 80.
\<close>

theorem parseBoundValue_keywords_witness:
  "relativeValuesExec ''25%'' = None \<and> decomposeRawValue (Str ''25%'') = (25, Some ''%'') \<and>
   parseBoundValue (\<lambda>m u. m) (Str ''25%'') 200 None None = 50 \<and>
   relativeValuesExec ''50%-=20'' = Some ''-='' \<and>
   at_js (split_js ''50%-=20'' ''-='') 0 = ''50%'' \<and>
   at_js (split_js ''50%-=20'' ''-='') 1 = ''20'' \<and>
   hd ''-='' = CHR ''-'' \<and>
   convertValueToPx (\<lambda>m u. m) (Str ''50%'') 200 None None = 100 \<and>
   convertValueToPx (\<lambda>m u. m) (Str ''20'') 200 None None = 20 \<and>
   parseBoundValue (\<lambda>m u. m) (Str ''50%-=20'') 200 None None = 80"
  using parseBoundValue_keywords [of "\<lambda>m u. m" 200 None None "''25%''" 25 "''-=''"]
    parseBoundValue_keywords [of "\<lambda>m u. m" 200 None None "''50%-=20''" 50 "''-=''"]
  by (simp add: resolver_defs round_js_0)









section \<open>The effect of a call of handleScroll\<close>

text \<open>
  What each block of \<open>handleScroll\<close> keeps and what it writes, and from these the fields
  and the events of the observer after the call.
\<close>

lemma call_ob: "ob (call K i sl s) = (ob s)\<lparr>linked := linked (ob (call K i sl s))\<rparr>"
  by (simp add: call_def Let_def split: callback.split option.split)

lemma call_ct: "ct (call K i sl s) = ct s"
  by (simp add: call_def Let_def split: callback.split option.split)

lemma call_keeps:
  "isInView (ob (call K i sl s)) = isInView (ob s)"
  "hasEntered (ob (call K i sl s)) = hasEntered (ob s)"
  "forceEnter (ob (call K i sl s)) = forceEnter (ob s)"
  "offsetStart (ob (call K i sl s)) = offsetStart (ob s)"
  "offsetEnd (ob (call K i sl s)) = offsetEnd (ob s)"
  "horizontal (ob (call K i sl s)) = horizontal (ob s)"
  "began (ob (call K i sl s)) = began (ob s)"
  "completed (ob (call K i sl s)) = completed (ob s)"
  "reverted (ob (call K i sl s)) = reverted (ob s)"
  "repeat (ob (call K i sl s)) = repeat (ob s)"
  "sync (ob (call K i sl s)) = sync (ob s)"
  "debugOn (ob (call K i sl s)) = debugOn (ob s)"
  "debugEl (ob (call K i sl s)) = debugEl (ob s)"
  "backward (ob (call K i sl s)) c = backward (ob s) c"
  by (subst call_ob, simp add: backward_def)+

lemma call_linked_None:
  "linked (ob s) = None \<Longrightarrow> linked (ob (call K i sl s)) = None"
  by (simp add: call_def Let_def split: callback.split)

lemma call_crossings:
  "crossings j (tr (call K i sl s)) =
     crossings j (tr s) @ (if j = i \<and> sl \<noteq> OnUpdate \<and> sl \<noteq> OnSyncComplete then [Fired i sl] else [])"
  by (auto simp: call_def Let_def crossings_def is_crossing_def split: callback.split option.split)

lemma call_own:
  "j \<noteq> i \<Longrightarrow> filter (is_own j) (tr (call K i sl s)) = filter (is_own j) (tr s)"
  by (simp add: call_def Let_def is_own_def split: callback.split option.split)

lemma seek_ob: "ob (seek K i t m s) = (ob s)\<lparr>linked := linked (ob (seek K i t m s))\<rparr>"
  by (simp add: seek_def split: option.split)

lemma seek_ct: "ct (seek K i t m s) = ct s"
  by (simp add: seek_def split: option.split)

lemma seek_crossings: "crossings j (tr (seek K i t m s)) = crossings j (tr s)"
  by (simp add: seek_def crossings_def is_crossing_def split: option.split)

lemma seek_own:
  "j \<noteq> i \<Longrightarrow> filter (is_own j) (tr (seek K i t m s)) = filter (is_own j) (tr s)"
  by (simp add: seek_def is_own_def split: option.split)

lemma beganBlock_ob: "ob (beganBlock b p s) = (ob s)\<lparr>began := began (ob (beganBlock b p s))\<rparr>"
  by (simp add: beganBlock_def Let_def)

lemma beganBlock_frame: "ct (beganBlock b p s) = ct s" "tr (beganBlock b p s) = tr s"
  by (simp_all add: beganBlock_def Let_def)

lemma beganBlock_began:
  "began (ob (beganBlock b p s)) = (if 0 < p then True else if b then False else began (ob s))"
  by (simp add: beganBlock_def Let_def)

lemma wakeBlock_frame:
  "ob (wakeBlock b s) = ob s" "ct (wakeBlock b s) = ct s"
  "crossings j (tr (wakeBlock b s)) = crossings j (tr s)"
  "filter (is_own j) (tr (wakeBlock b s)) = filter (is_own j) (tr s)"
  by (simp_all add: wakeBlock_def crossings_def is_crossing_def is_own_def)

lemma enterBlock_keeps:
  "offsetStart (ob (enterBlock K i v f s)) = offsetStart (ob s)"
  "offsetEnd (ob (enterBlock K i v f s)) = offsetEnd (ob s)"
  "horizontal (ob (enterBlock K i v f s)) = horizontal (ob s)"
  "began (ob (enterBlock K i v f s)) = began (ob s)"
  "completed (ob (enterBlock K i v f s)) = completed (ob s)"
  "reverted (ob (enterBlock K i v f s)) = reverted (ob s)"
  "repeat (ob (enterBlock K i v f s)) = repeat (ob s)"
  "sync (ob (enterBlock K i v f s)) = sync (ob s)"
  "backwardX (ct (enterBlock K i v f s)) = backwardX (ct s)"
  "backwardY (ct (enterBlock K i v f s)) = backwardY (ct s)"
  "scrollX (ct (enterBlock K i v f s)) = scrollX (ct s)"
  "scrollY (ct (enterBlock K i v f s)) = scrollY (ct s)"
  "children (ct (enterBlock K i v f s)) = children (ct s)"
  "active (ct (enterBlock K i v f s)) = active (ct s)"
  by (simp_all add: enterBlock_def Let_def call_keeps call_ct)

lemma enterBlock_linked_None:
  "linked (ob s) = None \<Longrightarrow> linked (ob (enterBlock K i v f s)) = None"
  by (simp add: enterBlock_def Let_def call_linked_None)

lemma enterBlock_view:
  "isInView (ob (enterBlock K i v f s)) = (v \<or> isInView (ob s))"
  "hasEntered (ob (enterBlock K i v f s)) = (hasEntered (ob s) \<or> enters v f (ob s))"
  "forceEnter (ob (enterBlock K i v f s)) =
     (if enters v f (ob s) then (f \<or> forceEnter (ob s))
      else if v \<and> \<not> isInView (ob s) then False else forceEnter (ob s))"
  by (auto simp: enterBlock_def Let_def call_keeps enters_def)

lemma enterBlock_crossings:
  "crossings i (tr (enterBlock K i v f s)) =
     crossings i (tr s) @ (if enters v f (ob s) then enterEvents i (backward (ob s) (ct s)) else [])"
  by (auto simp: enterBlock_def Let_def call_keeps call_ct call_crossings enters_def enterEvents_def
      backward_def)

lemma enterBlock_own:
  "j \<noteq> i \<Longrightarrow> filter (is_own j) (tr (enterBlock K i v f s)) = filter (is_own j) (tr s)"
  by (simp add: enterBlock_def Let_def call_own)

lemma seek_keeps2:
  "isInView (ob (seek K i t m s)) = isInView (ob s)"
  "hasEntered (ob (seek K i t m s)) = hasEntered (ob s)"
  "forceEnter (ob (seek K i t m s)) = forceEnter (ob s)"
  "offsetStart (ob (seek K i t m s)) = offsetStart (ob s)"
  "offsetEnd (ob (seek K i t m s)) = offsetEnd (ob s)"
  "horizontal (ob (seek K i t m s)) = horizontal (ob s)"
  "began (ob (seek K i t m s)) = began (ob s)"
  "completed (ob (seek K i t m s)) = completed (ob s)"
  "reverted (ob (seek K i t m s)) = reverted (ob s)"
  "repeat (ob (seek K i t m s)) = repeat (ob s)"
  "sync (ob (seek K i t m s)) = sync (ob s)"
  by (subst seek_ob, simp)+

lemma updateBlock_keeps:
  "isInView (ob (updateBlock K i sh hu v p s)) = isInView (ob s)"
  "hasEntered (ob (updateBlock K i sh hu v p s)) = hasEntered (ob s)"
  "forceEnter (ob (updateBlock K i sh hu v p s)) = forceEnter (ob s)"
  "offsetStart (ob (updateBlock K i sh hu v p s)) = offsetStart (ob s)"
  "offsetEnd (ob (updateBlock K i sh hu v p s)) = offsetEnd (ob s)"
  "horizontal (ob (updateBlock K i sh hu v p s)) = horizontal (ob s)"
  "began (ob (updateBlock K i sh hu v p s)) = began (ob s)"
  "completed (ob (updateBlock K i sh hu v p s)) = completed (ob s)"
  "reverted (ob (updateBlock K i sh hu v p s)) = reverted (ob s)"
  "repeat (ob (updateBlock K i sh hu v p s)) = repeat (ob s)"
  "sync (ob (updateBlock K i sh hu v p s)) = sync (ob s)"
  "ct (updateBlock K i sh hu v p s) = ct s"
  "crossings j (tr (updateBlock K i sh hu v p s)) = crossings j (tr s)"
  by (simp_all add: updateBlock_def Let_def call_keeps call_ct call_crossings seek_keeps2 seek_ct
      seek_crossings split: option.split)

lemma updateBlock_linked_None:
  "linked (ob s) = None \<Longrightarrow> linked (ob (updateBlock K i sh hu v p s)) = None"
  by (simp add: updateBlock_def Let_def call_linked_None)

lemma updateBlock_own:
  "j \<noteq> i \<Longrightarrow> filter (is_own j) (tr (updateBlock K i sh hu v p s)) = filter (is_own j) (tr s)"
  by (simp add: updateBlock_def Let_def call_own seek_own split: option.split)

lemma leaveBlock_keeps:
  "hasEntered (ob (snd (leaveBlock K i v so sm sc s))) = hasEntered (ob s)"
  "forceEnter (ob (snd (leaveBlock K i v so sm sc s))) = forceEnter (ob s)"
  "offsetStart (ob (snd (leaveBlock K i v so sm sc s))) = offsetStart (ob s)"
  "offsetEnd (ob (snd (leaveBlock K i v so sm sc s))) = offsetEnd (ob s)"
  "horizontal (ob (snd (leaveBlock K i v so sm sc s))) = horizontal (ob s)"
  "began (ob (snd (leaveBlock K i v so sm sc s))) = began (ob s)"
  "completed (ob (snd (leaveBlock K i v so sm sc s))) = completed (ob s)"
  "reverted (ob (snd (leaveBlock K i v so sm sc s))) = reverted (ob s)"
  "repeat (ob (snd (leaveBlock K i v so sm sc s))) = repeat (ob s)"
  "sync (ob (snd (leaveBlock K i v so sm sc s))) = sync (ob s)"
  "ct (snd (leaveBlock K i v so sm sc s)) = ct s"
  by (simp_all add: leaveBlock_def Let_def call_keeps call_ct)

lemma leaveBlock_linked_None:
  "linked (ob s) = None \<Longrightarrow> linked (ob (snd (leaveBlock K i v so sm sc s))) = None"
  by (simp add: leaveBlock_def Let_def call_linked_None)

lemma leaveBlock_view:
  "isInView (ob (snd (leaveBlock K i v so sm sc s))) = (v \<and> isInView (ob s))"
  by (auto simp: leaveBlock_def Let_def call_keeps)

lemma leaveBlock_fst:
  "fst (leaveBlock K i v so sm sc s) =
     (if \<not> v \<and> isInView (ob s) \<and> so \<and> \<not> truthy sm then True else sc)"
  by (simp add: leaveBlock_def Let_def)

lemma leaveBlock_crossings:
  "crossings i (tr (snd (leaveBlock K i v so sm sc s))) =
     crossings i (tr s) @
       (if \<not> v \<and> isInView (ob s) then leaveEvents i (backward (ob s) (ct s)) else [])"
  by (auto simp: leaveBlock_def Let_def call_keeps call_ct call_crossings leaveEvents_def backward_def)

lemma leaveBlock_own:
  "j \<noteq> i \<Longrightarrow> filter (is_own j) (tr (snd (leaveBlock K i v so sm sc s))) = filter (is_own j) (tr s)"
  by (simp add: leaveBlock_def Let_def call_own)

lemma revert_keeps:
  "isInView (ob (revert i s)) = isInView (ob s)"
  "hasEntered (ob (revert i s)) = hasEntered (ob s)"
  "forceEnter (ob (revert i s)) = forceEnter (ob s)"
  "offsetStart (ob (revert i s)) = offsetStart (ob s)"
  "offsetEnd (ob (revert i s)) = offsetEnd (ob s)"
  "horizontal (ob (revert i s)) = horizontal (ob s)"
  "began (ob (revert i s)) = began (ob s)"
  "completed (ob (revert i s)) = completed (ob s)"
  "repeat (ob (revert i s)) = repeat (ob s)"
  "sync (ob (revert i s)) = sync (ob s)"
  "linked (ob (revert i s)) = linked (ob s)"
  "backwardX (ct (revert i s)) = backwardX (ct s)"
  "backwardY (ct (revert i s)) = backwardY (ct s)"
  "scrollX (ct (revert i s)) = scrollX (ct s)"
  "scrollY (ct (revert i s)) = scrollY (ct s)"
  "tr (revert i s) = tr s"
  by (simp_all add: revert_def Let_def removeDebug_def removeChild_def container_revert_def)

lemma revert_reverted: "reverted (ob (revert i s))"
  by (simp add: revert_def Let_def)

lemma revert_children:
  "children (ct (revert i s)) = (if reverted (ob s) then children (ct s) else removeAll i (children (ct s)))"
  by (simp add: revert_def Let_def removeDebug_def removeChild_def container_revert_def)

lemma completeBlock_keeps:
  "isInView (ob (completeBlock K i p sc s)) = isInView (ob s)"
  "hasEntered (ob (completeBlock K i p sc s)) = hasEntered (ob s)"
  "forceEnter (ob (completeBlock K i p sc s)) = forceEnter (ob s)"
  "offsetStart (ob (completeBlock K i p sc s)) = offsetStart (ob s)"
  "offsetEnd (ob (completeBlock K i p sc s)) = offsetEnd (ob s)"
  "horizontal (ob (completeBlock K i p sc s)) = horizontal (ob s)"
  "backwardX (ct (completeBlock K i p sc s)) = backwardX (ct s)"
  "backwardY (ct (completeBlock K i p sc s)) = backwardY (ct s)"
  "scrollX (ct (completeBlock K i p sc s)) = scrollX (ct s)"
  "scrollY (ct (completeBlock K i p sc s)) = scrollY (ct s)"
  "crossings j (tr (completeBlock K i p sc s)) = crossings j (tr s)"
  by (simp_all add: completeBlock_def Let_def revert_keeps call_keeps call_ct call_crossings)

lemma completeBlock_own:
  "j \<noteq> i \<Longrightarrow> filter (is_own j) (tr (completeBlock K i p sc s)) = filter (is_own j) (tr s)"
  by (simp add: completeBlock_def Let_def call_own revert_keeps)

lemma completeBlock_children:
  "set (children (ct (completeBlock K i p sc s))) \<subseteq> set (children (ct s))"
  by (auto simp: completeBlock_def Let_def call_ct revert_children)

lemma finishBlock_keeps:
  "isInView (ob (finishBlock p s)) = isInView (ob s)"
  "hasEntered (ob (finishBlock p s)) = hasEntered (ob s)"
  "forceEnter (ob (finishBlock p s)) = forceEnter (ob s)"
  "offsetStart (ob (finishBlock p s)) = offsetStart (ob s)"
  "offsetEnd (ob (finishBlock p s)) = offsetEnd (ob s)"
  "horizontal (ob (finishBlock p s)) = horizontal (ob s)"
  "reverted (ob (finishBlock p s)) = reverted (ob s)"
  "ct (finishBlock p s) = ct s"
  "tr (finishBlock p s) = tr s"
  by (simp_all add: finishBlock_def Let_def)

lemma enters_began [simp]: "enters v f (this\<lparr>began := x\<rparr>) = enters v f this"
  by (simp add: enters_def)

lemma backward_began [simp]: "backward (this\<lparr>began := x\<rparr>) c = backward this c"
  by (simp add: backward_def)

lemma beganBlock_keeps:
  "isInView (ob (beganBlock b p s)) = isInView (ob s)"
  "hasEntered (ob (beganBlock b p s)) = hasEntered (ob s)"
  "forceEnter (ob (beganBlock b p s)) = forceEnter (ob s)"
  "offsetStart (ob (beganBlock b p s)) = offsetStart (ob s)"
  "offsetEnd (ob (beganBlock b p s)) = offsetEnd (ob s)"
  "horizontal (ob (beganBlock b p s)) = horizontal (ob s)"
  "completed (ob (beganBlock b p s)) = completed (ob s)"
  "reverted (ob (beganBlock b p s)) = reverted (ob s)"
  "repeat (ob (beganBlock b p s)) = repeat (ob s)"
  "sync (ob (beganBlock b p s)) = sync (ob s)"
  "linked (ob (beganBlock b p s)) = linked (ob s)"
  "enters v f (ob (beganBlock b p s)) = enters v f (ob s)"
  "backward (ob (beganBlock b p s)) c = backward (ob s) c"
  by (subst beganBlock_ob, simp)+

lemmas hs_frame = beganBlock_keeps beganBlock_frame wakeBlock_frame enterBlock_keeps
  updateBlock_keeps leaveBlock_keeps completeBlock_keeps finishBlock_keeps

lemma handleScroll_keeps:
  "offsetStart (ob (handleScroll K i s)) = offsetStart (ob s)"
  "offsetEnd (ob (handleScroll K i s)) = offsetEnd (ob s)"
  "horizontal (ob (handleScroll K i s)) = horizontal (ob s)"
  "backwardX (ct (handleScroll K i s)) = backwardX (ct s)"
  "backwardY (ct (handleScroll K i s)) = backwardY (ct s)"
  unfolding handleScroll_def Let_def case_prod_beta
  by (simp_all only: hs_frame)

lemma handleScroll_view:
  fixes s :: "'l frame"
  defines "v \<equiv> offsetStart (ob s) < scroll (ob s) (ct s) \<and> scroll (ob s) (ct s) < offsetEnd (ob s)"
  defines "f \<equiv> \<not> hasEntered (ob s) \<and>
     (scroll (ob s) (ct s) = offsetStart (ob s) \<or> scroll (ob s) (ct s) = offsetEnd (ob s))"
  shows "isInView (ob (handleScroll K i s)) = v"
    and "hasEntered (ob (handleScroll K i s)) = (hasEntered (ob s) \<or> enters v f (ob s))"
    and "forceEnter (ob (handleScroll K i s)) =
          (if enters v f (ob s) then (f \<or> forceEnter (ob s))
           else if v \<and> \<not> isInView (ob s) then False else forceEnter (ob s))"
    and "crossings i (tr (handleScroll K i s)) =
          crossings i (tr s) @
            (if enters v f (ob s) then enterEvents i (backward (ob s) (ct s)) else []) @
            (if \<not> v \<and> isInView (ob s) then leaveEvents i (backward (ob s) (ct s)) else [])"
proof -
  have v: "(\<not> scroll (ob s) (ct s) \<le> offsetStart (ob s) \<and> \<not> offsetEnd (ob s) \<le> scroll (ob s) (ct s)) = v"
    by (auto simp: v_def)
  show "isInView (ob (handleScroll K i s)) = v"
    unfolding handleScroll_def Let_def case_prod_beta
    by (simp only: hs_frame leaveBlock_view enterBlock_view v) auto
  show "hasEntered (ob (handleScroll K i s)) = (hasEntered (ob s) \<or> enters v f (ob s))"
    unfolding handleScroll_def Let_def case_prod_beta
    by (simp only: hs_frame leaveBlock_view enterBlock_view v f_def [symmetric])
  show "forceEnter (ob (handleScroll K i s)) =
          (if enters v f (ob s) then (f \<or> forceEnter (ob s))
           else if v \<and> \<not> isInView (ob s) then False else forceEnter (ob s))"
    unfolding handleScroll_def Let_def case_prod_beta
    by (simp only: hs_frame leaveBlock_view enterBlock_view v f_def [symmetric])
  show "crossings i (tr (handleScroll K i s)) =
          crossings i (tr s) @
            (if enters v f (ob s) then enterEvents i (backward (ob s) (ct s)) else []) @
            (if \<not> v \<and> isInView (ob s) then leaveEvents i (backward (ob s) (ct s)) else [])"
    unfolding handleScroll_def Let_def case_prod_beta
    apply (simp only: hs_frame leaveBlock_view leaveBlock_crossings enterBlock_view
        enterBlock_crossings v f_def [symmetric] backward_def)
    apply auto
    done
qed

lemma handleScroll_own:
  assumes "j \<noteq> i"
  shows "filter (is_own j) (tr (handleScroll K i s)) = filter (is_own j) (tr s)"
  unfolding handleScroll_def Let_def case_prod_beta
  by (simp only: finishBlock_keeps completeBlock_own [OF assms] leaveBlock_own [OF assms]
      updateBlock_own [OF assms] enterBlock_own [OF assms] wakeBlock_frame beganBlock_frame)

lemma handleScroll_children:
  "set (children (ct (handleScroll K i s))) \<subseteq> set (children (ct s))"
  unfolding handleScroll_def Let_def case_prod_beta
  apply (simp only: finishBlock_keeps)
  apply (rule subset_trans [OF completeBlock_children])
  apply (simp only: leaveBlock_keeps updateBlock_keeps enterBlock_keeps wakeBlock_frame
      beganBlock_frame)
  done

lemma completeBlock_fires:
  assumes "1 \<le> p" "began (ob s)" "\<not> completed (ob s)" "(sync (ob s) \<and> sc) \<or> \<not> sync (ob s)"
    and "\<not> repeat (ob s)" "linked (ob s) = None" "\<not> reverted (ob s)"
  shows "completed (ob (completeBlock K i p sc s))"
    and "reverted (ob (completeBlock K i p sc s))"
    and "children (ct (completeBlock K i p sc s)) = removeAll i (children (ct s))"
  using assms
  by (auto simp: completeBlock_def Let_def call_keeps call_ct call_linked_None revert_keeps
      revert_reverted revert_children)

lemma completeBlock_idle:
  assumes "\<not> ((sync (ob s) \<and> sc) \<or> \<not> sync (ob s))"
  shows "completeBlock K i p sc s = s"
  using assms by (simp add: completeBlock_def)

lemma finishBlock_completed:
  "completed (ob (finishBlock p s)) = (\<not> p < 1 \<and> completed (ob s))"
  by (auto simp: finishBlock_def Let_def)

lemma handleScroll_unlinked:
  assumes "linked (ob s) = None"
  shows "handleScroll K i s =
     (let sc = scroll (ob s) (ct s);
          inView = (\<not> sc \<le> offsetStart (ob s) \<and> \<not> offsetEnd (ob s) \<le> sc);
          forceEnterL = (\<not> hasEntered (ob s) \<and> (sc = offsetStart (ob s) \<or> sc = offsetEnd (ob s)));
          p = progress (ob s) (ct s);
          s1 = updateBlock K i False False inView p
                 (enterBlock K i inView forceEnterL (beganBlock (sc \<le> offsetStart (ob s)) p s))
      in finishBlock p
           (completeBlock K i p (fst (leaveBlock K i inView (sync (ob s)) (syncSmooth (ob s)) False s1))
              (snd (leaveBlock K i inView (sync (ob s)) (syncSmooth (ob s)) False s1))))"
  using assms unfolding handleScroll_def Let_def case_prod_beta
  by (simp add: wakeBlock_def)

lemma handleScroll_completes:
  assumes "linked (ob s) = None" "\<not> repeat (ob s)" "\<not> reverted (ob s)" "\<not> completed (ob s)"
    and "progress (ob s) (ct s) = 1"
    and "\<not> sync (ob s) \<or>
         (isInView (ob s) \<and> \<not> truthy (syncSmooth (ob s)) \<and>
          (scroll (ob s) (ct s) \<le> offsetStart (ob s) \<or> offsetEnd (ob s) \<le> scroll (ob s) (ct s)))"
  shows "completed (ob (handleScroll K i s))"
    and "reverted (ob (handleScroll K i s))"
    and "children (ct (handleScroll K i s)) = removeAll i (children (ct s))"
proof -
  let ?sc = "scroll (ob s) (ct s)"
  let ?v = "\<not> ?sc \<le> offsetStart (ob s) \<and> \<not> offsetEnd (ob s) \<le> ?sc"
  let ?f = "\<not> hasEntered (ob s) \<and> (?sc = offsetStart (ob s) \<or> ?sc = offsetEnd (ob s))"
  let ?s1 = "updateBlock K i False False ?v 1
               (enterBlock K i ?v ?f (beganBlock (?sc \<le> offsetStart (ob s)) 1 s))"
  let ?lb = "leaveBlock K i ?v (sync (ob s)) (syncSmooth (ob s)) False ?s1"
  have hs: "handleScroll K i s = finishBlock 1 (completeBlock K i 1 (fst ?lb) (snd ?lb))"
    using assms(1,5) by (simp add: handleScroll_unlinked Let_def)
  have inv: "isInView (ob ?s1) = (?v \<or> isInView (ob s))"
    by (simp only: updateBlock_keeps enterBlock_view beganBlock_keeps)
  have sc: "(sync (ob (snd ?lb)) \<and> fst ?lb) \<or> \<not> sync (ob (snd ?lb))"
    using assms(6)
    by (simp only: leaveBlock_keeps updateBlock_keeps enterBlock_keeps enterBlock_view
        beganBlock_keeps leaveBlock_fst) auto
  have bg: "began (ob (snd ?lb))"
    by (simp only: leaveBlock_keeps updateBlock_keeps enterBlock_keeps beganBlock_began) simp
  have nc: "\<not> completed (ob (snd ?lb))" and nr: "\<not> repeat (ob (snd ?lb))"
    and nv: "\<not> reverted (ob (snd ?lb))"
    using assms(2-4)
    by (simp_all only: leaveBlock_keeps updateBlock_keeps enterBlock_keeps beganBlock_keeps
        not_False_eq_True)
  have ln: "linked (ob (snd ?lb)) = None"
    using assms(1)
    by (intro leaveBlock_linked_None updateBlock_linked_None enterBlock_linked_None)
       (simp add: beganBlock_keeps)
  have ch: "children (ct (snd ?lb)) = children (ct s)"
    by (simp only: leaveBlock_keeps updateBlock_keeps enterBlock_keeps beganBlock_frame)
  note cf = completeBlock_fires [OF order_refl bg nc sc nr ln nv, of K i]
  show "completed (ob (handleScroll K i s))"
    using cf(1) by (simp add: hs finishBlock_completed)
  show "reverted (ob (handleScroll K i s))"
    using cf(2) by (simp add: hs finishBlock_keeps)
  show "children (ct (handleScroll K i s)) = removeAll i (children (ct s))"
    using cf(3) ch by (simp add: hs finishBlock_keeps)
qed

lemma call_keeps2:
  "distance (ob (call K i sl s)) = distance (ob s)"
  "syncSmooth (ob (call K i sl s)) = syncSmooth (ob s)"
  by (subst call_ob, simp)+

lemma enterBlock_keeps2:
  "distance (ob (enterBlock K i v f s)) = distance (ob s)"
  "syncSmooth (ob (enterBlock K i v f s)) = syncSmooth (ob s)"
  by (simp_all add: enterBlock_def Let_def call_keeps2)

lemma seek_keeps3:
  "distance (ob (seek K i t m s)) = distance (ob s)"
  "syncSmooth (ob (seek K i t m s)) = syncSmooth (ob s)"
  by (subst seek_ob, simp)+

lemma updateBlock_keeps2:
  "distance (ob (updateBlock K i sh hu v p s)) = distance (ob s)"
  "syncSmooth (ob (updateBlock K i sh hu v p s)) = syncSmooth (ob s)"
  by (simp_all add: updateBlock_def Let_def call_keeps2 seek_keeps3 split: option.split)

lemma leaveBlock_keeps2:
  "distance (ob (snd (leaveBlock K i v so sm sc s))) = distance (ob s)"
  "syncSmooth (ob (snd (leaveBlock K i v so sm sc s))) = syncSmooth (ob s)"
  by (simp_all add: leaveBlock_def Let_def call_keeps2)

lemma revert_keeps2:
  "distance (ob (revert i s)) = distance (ob s)"
  "syncSmooth (ob (revert i s)) = syncSmooth (ob s)"
  by (simp_all add: revert_def Let_def removeDebug_def)

lemma completeBlock_keeps2:
  "distance (ob (completeBlock K i p sc s)) = distance (ob s)"
  "syncSmooth (ob (completeBlock K i p sc s)) = syncSmooth (ob s)"
  "repeat (ob (completeBlock K i p sc s)) = repeat (ob s)"
  "sync (ob (completeBlock K i p sc s)) = sync (ob s)"
  by (simp_all add: completeBlock_def Let_def revert_keeps revert_keeps2 call_keeps call_keeps2)

lemma completeBlock_linked_None:
  "linked (ob s) = None \<Longrightarrow> linked (ob (completeBlock K i p sc s)) = None"
  by (simp add: completeBlock_def Let_def revert_keeps call_linked_None)

lemma finishBlock_keeps2:
  "distance (ob (finishBlock p s)) = distance (ob s)"
  "syncSmooth (ob (finishBlock p s)) = syncSmooth (ob s)"
  "repeat (ob (finishBlock p s)) = repeat (ob s)"
  "sync (ob (finishBlock p s)) = sync (ob s)"
  "linked (ob (finishBlock p s)) = linked (ob s)"
  "began (ob (finishBlock p s)) = began (ob s)"
  by (simp_all add: finishBlock_def Let_def)

lemma beganBlock_keeps2:
  "distance (ob (beganBlock b p s)) = distance (ob s)"
  "syncSmooth (ob (beganBlock b p s)) = syncSmooth (ob s)"
  by (subst beganBlock_ob, simp)+

lemmas hs_frame2 = hs_frame beganBlock_keeps2 enterBlock_keeps2 updateBlock_keeps2
  leaveBlock_keeps2 completeBlock_keeps2 finishBlock_keeps2

lemma handleScroll_keeps2:
  "distance (ob (handleScroll K i s)) = distance (ob s)"
  "syncSmooth (ob (handleScroll K i s)) = syncSmooth (ob s)"
  "repeat (ob (handleScroll K i s)) = repeat (ob s)"
  "sync (ob (handleScroll K i s)) = sync (ob s)"
  "scrollX (ct (handleScroll K i s)) = scrollX (ct s)"
  "scrollY (ct (handleScroll K i s)) = scrollY (ct s)"
  unfolding handleScroll_def Let_def case_prod_beta
  by (simp_all only: hs_frame2)

lemma handleScroll_progress:
  "progress (ob (handleScroll K i s)) (ct (handleScroll K i s)) = progress (ob s) (ct s)"
  "scroll (ob (handleScroll K i s)) (ct (handleScroll K i s)) = scroll (ob s) (ct s)"
  by (simp_all add: progress_def scroll_def handleScroll_keeps handleScroll_keeps2)

lemma handleScroll_linked_None:
  assumes "linked (ob s) = None"
  shows "linked (ob (handleScroll K i s)) = None"
  unfolding handleScroll_unlinked [OF assms] Let_def
  by (simp only: finishBlock_keeps2)
     (intro completeBlock_linked_None leaveBlock_linked_None updateBlock_linked_None
       enterBlock_linked_None, simp add: beganBlock_keeps assms)

lemma handleScroll_idle:
  assumes "linked (ob s) = None"
    and "progress (ob s) (ct s) < 1 \<or>
         (sync (ob s) \<and> \<not> isInView (ob s) \<and>
          (scroll (ob s) (ct s) \<le> offsetStart (ob s) \<or> offsetEnd (ob s) \<le> scroll (ob s) (ct s)))"
    and "\<not> completed (ob s)"
  shows "\<not> completed (ob (handleScroll K i s))"
    and "reverted (ob (handleScroll K i s)) = reverted (ob s)"
    and "children (ct (handleScroll K i s)) = children (ct s)"
    and "began (ob (handleScroll K i s)) =
           (if 0 < progress (ob s) (ct s) then True
            else if scroll (ob s) (ct s) \<le> offsetStart (ob s) then False else began (ob s))"
proof -
  let ?sc = "scroll (ob s) (ct s)"
  let ?p = "progress (ob s) (ct s)"
  let ?v = "\<not> ?sc \<le> offsetStart (ob s) \<and> \<not> offsetEnd (ob s) \<le> ?sc"
  let ?f = "\<not> hasEntered (ob s) \<and> (?sc = offsetStart (ob s) \<or> ?sc = offsetEnd (ob s))"
  let ?s1 = "updateBlock K i False False ?v ?p
               (enterBlock K i ?v ?f (beganBlock (?sc \<le> offsetStart (ob s)) ?p s))"
  let ?lb = "leaveBlock K i ?v (sync (ob s)) (syncSmooth (ob s)) False ?s1"
  have hs: "handleScroll K i s = finishBlock ?p (completeBlock K i ?p (fst ?lb) (snd ?lb))"
    using assms(1) by (simp add: handleScroll_unlinked Let_def)
  have "\<not> (1 \<le> ?p \<and> ((sync (ob (snd ?lb)) \<and> fst ?lb) \<or> \<not> sync (ob (snd ?lb))))"
    using assms(2)
    by (simp only: leaveBlock_keeps updateBlock_keeps enterBlock_keeps enterBlock_view
        beganBlock_keeps leaveBlock_fst) auto
  then have cb: "completeBlock K i ?p (fst ?lb) (snd ?lb) = snd ?lb"
    by (auto simp: completeBlock_def)
  show "\<not> completed (ob (handleScroll K i s))"
    unfolding hs cb finishBlock_completed using assms(3)
    by (simp only: leaveBlock_keeps updateBlock_keeps enterBlock_keeps beganBlock_keeps) simp
  show "reverted (ob (handleScroll K i s)) = reverted (ob s)"
    unfolding hs cb
    by (simp only: finishBlock_keeps leaveBlock_keeps updateBlock_keeps enterBlock_keeps
        beganBlock_keeps)
  show "children (ct (handleScroll K i s)) = children (ct s)"
    unfolding hs cb
    by (simp only: finishBlock_keeps leaveBlock_keeps updateBlock_keeps enterBlock_keeps
        beganBlock_frame)
  show "began (ob (handleScroll K i s)) =
           (if 0 < ?p then True else if ?sc \<le> offsetStart (ob s) then False else began (ob s))"
    unfolding hs cb
    by (simp only: finishBlock_keeps2 leaveBlock_keeps updateBlock_keeps enterBlock_keeps
        beganBlock_began)
qed

section \<open>The example, evaluated\<close>

lemma watcher_fields:
  "linked watcher = None" "debugOn watcher = False" "horizontal watcher = False"
  "enter watcher = ThStr ''end start''" "leave watcher = ThStr ''start end''"
  "isInView watcher = False" "hasEntered watcher = False" "forceEnter watcher = False"
  "sync watcher = True" "syncSmooth watcher = None" "syncEase watcher = None"
  "repeat watcher = True" "reverted watcher = False" "completed watcher = False"
  "began watcher = False"
  by (simp_all add: watcher_def constructor_def Let_def no_params_def setValue_def
      sync_truthy_def named_easings_def split_js_def)

lemma thresholdPair_defaults:
  "thresholdPair (ThStr ''end start'') a b = (Str ''end'', Str ''start'')"
  "thresholdPair (ThStr ''start end'') a b = (Str ''start'', Str ''end'')"
  by (simp_all add: thresholdPair_def split_js_def at_js_def Let_def)

lemma parseBoundValue_start_end:
  "parseBoundValue cvu (Str ''start'') sz u v = 0"
  "parseBoundValue cvu (Str ''end'') sz u v = round_js sz 0"
  by (simp_all add: resolver_defs round_js_0 split: option.split)

lemma bounded_frame:
  "ob bounded = watcher\<lparr>offset := 800, offsetStart := - 200, offsetEnd := 1000, distance := 1200,
     thresholds := [Str ''start'', Str ''end'', Str ''end'', Str ''start''],
     coords := [0, 200, 1000, 0]\<rparr>"
  "ct bounded = page"
  "tr bounded = []"
  by (simp_all add: bounded_def updateBounds_def Let_def scene_def watcher_fields
      thresholdPair_defaults parseBoundValue_start_end page_def document_def round_js_0)

lemma bounded_fields:
  "isInView (ob bounded) = False" "hasEntered (ob bounded) = False" "forceEnter (ob bounded) = False"
  "offsetStart (ob bounded) = - 200" "offsetEnd (ob bounded) = 1000" "distance (ob bounded) = 1200"
  "horizontal (ob bounded) = False" "linked (ob bounded) = None" "sync (ob bounded) = True"
  "syncSmooth (ob bounded) = None" "repeat (ob bounded) = True" "reverted (ob bounded) = False"
  "completed (ob bounded) = False" "began (ob bounded) = False"
  "backward (ob bounded) (ct bounded) = False"
  "crossings i (tr bounded) = []"
  "children (ct bounded) = [0]"
  by (simp_all add: bounded_frame watcher_fields backward_def page_def crossings_def)

lemma once_fields:
  "isInView (ob once) = False" "hasEntered (ob once) = False" "forceEnter (ob once) = False"
  "offsetStart (ob once) = - 200" "offsetEnd (ob once) = 1000" "distance (ob once) = 1200"
  "horizontal (ob once) = False" "linked (ob once) = None" "sync (ob once) = True"
  "syncSmooth (ob once) = None" "repeat (ob once) = False" "reverted (ob once) = False"
  "completed (ob once) = False" "began (ob once) = False"
  "children (ct once) = [0]"
  by (simp_all add: once_def bounded_frame watcher_fields page_def)

lemma scrollTo_fields:
  "ob (scrollTo x s) = ob s" "tr (scrollTo x s) = tr s"
  "children (ct (scrollTo x s)) = children (ct s)"
  "scroll (ob s) (ct (scrollTo x s)) = x"
  "progress (ob s) (ct (scrollTo x s)) =
     (case js_div (x - offsetStart (ob s)) (distance (ob s)) of
        PosInf \<Rightarrow> 0 | NaN \<Rightarrow> 0 | NegInf \<Rightarrow> round_js 0 6 | Fin p \<Rightarrow> round_js (clamp p 0 1) 6)"
  by (simp_all add: scrollTo_def scroll_def progress_def)

lemma world_of_fields:
  "w_container (world_of s) = ct s" "w_observers (world_of s) j = ob s" "w_trace (world_of s) = tr s"
  by (simp_all add: world_of_def)

lemma frame_eta: "\<lparr>ob = ob s, ct = ct s, tr = tr s\<rparr> = (s :: 'l frame)"
  by simp

section \<open>Properties of the progress getter\<close>

lemma round_js_unit: "0 \<le> v \<Longrightarrow> v \<le> 1 \<Longrightarrow> 0 \<le> round_js v d \<and> round_js v d \<le> 1"
  using round_js_mono [of 0 v d] round_js_mono [of v 1 d]
  by (simp add: round_js_zero round_js_one)

lemma clamp_unit: "0 \<le> clamp p 0 1 \<and> clamp p 0 1 \<le> 1"
  by (simp add: clamp_def)

lemma clamp_mono: "a \<le> b \<Longrightarrow> clamp a 0 1 \<le> clamp b 0 1"
  by (simp add: clamp_def)

lemma progress_unit: "0 \<le> progress this c \<and> progress this c \<le> 1"
  using round_js_unit [OF conjunct1 [OF clamp_unit] conjunct2 [OF clamp_unit]]
  by (simp add: progress_def round_js_zero split: jsnum.split)

lemma progress_mono:
  assumes "offsetStart this \<le> scroll this c" and "scroll this c \<le> scroll this c'"
  shows "progress this c \<le> progress this c'"
proof (cases "distance this = 0")
  case True
  then show ?thesis by (simp add: progress_def js_div_def round_js_zero)
next
  case False
  then have eq: "progress this x =
      round_js (clamp ((scroll this x - offsetStart this) / distance this) 0 1) 6" for x
    by (simp add: progress_def js_div_def)
  show ?thesis
  proof (cases "0 < distance this")
    case True
    with assms(2) have "(scroll this c - offsetStart this) / distance this
        \<le> (scroll this c' - offsetStart this) / distance this"
      by (simp add: divide_right_mono)
    then show ?thesis unfolding eq by (intro round_js_mono clamp_mono)
  next
    case neg: False
    with False have d: "distance this < 0" by simp
    have "(scroll this x - offsetStart this) / distance this \<le> 0"
      if "offsetStart this \<le> scroll this x" for x
      using that d by (simp add: divide_le_0_iff)
    then have "clamp ((scroll this x - offsetStart this) / distance this) 0 1 = 0"
      if "offsetStart this \<le> scroll this x" for x
      using that by (fastforce simp: clamp_def)
    with assms show ?thesis unfolding eq by simp
  qed
qed

text \<open>
  Claim C1. For an observer with any cached bounds and any scroll position, the getter
  \<open>progress\<close> returns a value between 0 and 1; it returns 0 whenever the quotient of the
  scroll distance by \<open>distance\<close> is \<open>Infinity\<close>, \<open>-Infinity\<close> or \<open>NaN\<close>, as it is for the
  distance 0; and for two scroll positions in the interval from \<open>offsetStart\<close> to
  \<open>offsetEnd\<close>, the progress at the smaller one is at most the progress at the larger.
\<close>

theorem progress_range_monotone:
  "0 \<le> progress this c \<and> progress this c \<le> 1 \<and>
   (js_div (scroll this c - offsetStart this) (distance this) = PosInf \<or>
    js_div (scroll this c - offsetStart this) (distance this) = NegInf \<or>
    js_div (scroll this c - offsetStart this) (distance this) = NaN \<longrightarrow> progress this c = 0) \<and>
   (distance this = 0 \<longrightarrow> progress this c = 0) \<and>
   (offsetStart this \<le> scroll this c \<and> scroll this c \<le> scroll this c' \<and>
    scroll this c' \<le> offsetEnd this \<longrightarrow> progress this c \<le> progress this c')"
proof -
  have nf: "progress this c = 0"
    if "js_div (scroll this c - offsetStart this) (distance this) = PosInf \<or>
        js_div (scroll this c - offsetStart this) (distance this) = NegInf \<or>
        js_div (scroll this c - offsetStart this) (distance this) = NaN"
    using that by (auto simp: progress_def round_js_zero)
  have z: "progress this c = 0" if "distance this = 0"
    using that by (simp add: progress_def js_div_def round_js_zero)
  show ?thesis using progress_unit [of this c] nf z progress_mono [of this c c'] by blast
qed

lemma round_js_half: "round_js (1 / 2) 6 = 1 / 2"
proof -
  have "\<lfloor>(500000::real) + 1 / 2\<rfloor> = 500000" by linarith
  then show ?thesis by (simp add: round_js_def)
qed

theorem progress_range_monotone_witness:
  "offsetStart (ob bounded) \<le> 400 \<and> (400::real) \<le> 1000 \<and> 1000 \<le> offsetEnd (ob bounded) \<and>
   progress (ob bounded) (page\<lparr>scrollY := 400\<rparr>) = 1 / 2 \<and>
   progress (ob bounded) (page\<lparr>scrollY := 1000\<rparr>) = 1 \<and>
   js_div (400 - offsetStart (ob bounded)) 0 = PosInf \<and>
   progress ((ob bounded)\<lparr>distance := 0\<rparr>) (page\<lparr>scrollY := 400\<rparr>) = 0"
  using progress_range_monotone [of "ob bounded" "page\<lparr>scrollY := 400\<rparr>" "page\<lparr>scrollY := 1000\<rparr>"]
    progress_range_monotone [of "(ob bounded)\<lparr>distance := 0\<rparr>" "page\<lparr>scrollY := 400\<rparr>"]
  by (simp add: progress_def scroll_def bounded_fields js_div_def clamp_def round_js_half
      round_js_one)

section \<open>Properties of updateBounds\<close>

lemma removeDebug_keeps:
  "linked (ob (removeDebug s)) = linked (ob s)"
  "offsetStart (ob (removeDebug s)) = offsetStart (ob s)"
  "offsetEnd (ob (removeDebug s)) = offsetEnd (ob s)"
  "distance (ob (removeDebug s)) = distance (ob s)"
  "ct (removeDebug s) = ct s"
  "tr (removeDebug s) = tr s"
  by (simp_all add: removeDebug_def Let_def)

lemma debug_keeps:
  "linked (ob (debug D s)) = linked (ob s)"
  "offsetStart (ob (debug D s)) = offsetStart (ob s)"
  "offsetEnd (ob (debug D s)) = offsetEnd (ob s)"
  "distance (ob (debug D s)) = distance (ob s)"
  "tr (debug D s) = tr s"
  by (simp_all add: debug_def Let_def removeDebug_keeps)

lemma seek_linked:
  "linked (ob (seek K i t m s)) = map_option (lk_seek K t m) (linked (ob s))"
  "tr (seek K i t m s) = tr s @ (case linked (ob s) of Some l \<Rightarrow> [LinkedSeek i t m] | None \<Rightarrow> [])"
  by (simp_all add: seek_def split: option.split)

lemma case_seek_keeps:
  "distance (ob (case x of None \<Rightarrow> s | Some t \<Rightarrow> seek K i t m s)) = distance (ob s)"
  "offsetStart (ob (case x of None \<Rightarrow> s | Some t \<Rightarrow> seek K i t m s)) = offsetStart (ob s)"
  "offsetEnd (ob (case x of None \<Rightarrow> s | Some t \<Rightarrow> seek K i t m s)) = offsetEnd (ob s)"
  by (simp_all add: seek_keeps2 seek_keeps3 split: option.split)

lemma if_debug_keeps:
  "distance (ob (if b then debug D s else s)) = distance (ob s)"
  "offsetStart (ob (if b then debug D s else s)) = offsetStart (ob s)"
  "offsetEnd (ob (if b then debug D s else s)) = offsetEnd (ob s)"
  "linked (ob (if b then debug D s else s)) = linked (ob s)"
  "tr (if b then debug D s else s) = tr s"
  by (simp_all add: debug_keeps)

lemma if_removeDebug_keeps:
  "linked (ob (if b then removeDebug s else s)) = linked (ob s)"
  "tr (if b then removeDebug s else s) = tr s"
  by (simp_all add: removeDebug_keeps)

lemma updateBounds_distance:
  "distance (ob (updateBounds K D i s)) =
     (if offsetEnd (ob (updateBounds K D i s)) - offsetStart (ob (updateBounds K D i s)) \<le> 0 then 0
      else offsetEnd (ob (updateBounds K D i s)) - offsetStart (ob (updateBounds K D i s)))"
  unfolding updateBounds_def Let_def case_prod_beta
  by (simp only: if_debug_keeps case_seek_keeps) simp

lemma updateBounds_linked:
  assumes "linked (ob s) = Some l"
  shows "linked (ob (updateBounds K D i s)) =
           Some (lk_seek K (lk_currentTime K l) True (lk_seek K 0 True l)) \<and>
         tr (updateBounds K D i s) =
           tr s @ [LinkedSeek i 0 True, LinkedSeek i (lk_currentTime K l) True]"
  unfolding updateBounds_def Let_def case_prod_beta
  by (simp only: if_debug_keeps if_removeDebug_keeps assms option.case option.map)
     (simp add: seek_linked if_removeDebug_keeps assms)

text \<open>
  Claim C7. After every call of \<open>updateBounds\<close> the field \<open>distance\<close> is not negative:
  it is 0 whenever the new \<open>offsetEnd\<close> minus the new \<open>offsetStart\<close> is zero or negative,
  and it is that difference otherwise; so the progress is not negative at any scroll
  position.
\<close>

theorem updateBounds_distance_nonneg:
  "0 \<le> distance (ob (updateBounds K D i s)) \<and>
   (offsetEnd (ob (updateBounds K D i s)) - offsetStart (ob (updateBounds K D i s)) \<le> 0 \<longrightarrow>
      distance (ob (updateBounds K D i s)) = 0) \<and>
   (0 < offsetEnd (ob (updateBounds K D i s)) - offsetStart (ob (updateBounds K D i s)) \<longrightarrow>
      distance (ob (updateBounds K D i s)) =
        offsetEnd (ob (updateBounds K D i s)) - offsetStart (ob (updateBounds K D i s))) \<and>
   0 \<le> progress (ob (updateBounds K D i s)) c"
  using updateBounds_distance [of K D i s] progress_unit [of "ob (updateBounds K D i s)" c]
  by (auto split: if_splits)

lemma inverted_bounds:
  "offsetStart (ob (updateBounds timeline document 0 inverted)) = 1000"
  "offsetEnd (ob (updateBounds timeline document 0 inverted)) = - 200"
  "distance (ob (updateBounds timeline document 0 inverted)) = 0"
  by (simp_all add: inverted_def updateBounds_def Let_def scene_def watcher_fields
      thresholdPair_defaults parseBoundValue_start_end page_def document_def round_js_0)

theorem updateBounds_distance_nonneg_witness:
  "offsetEnd (ob (updateBounds timeline document 0 inverted)) -
     offsetStart (ob (updateBounds timeline document 0 inverted)) = - 1200 \<and>
   distance (ob (updateBounds timeline document 0 inverted)) = 0 \<and>
   offsetEnd (ob (updateBounds timeline document 0 scene)) -
     offsetStart (ob (updateBounds timeline document 0 scene)) = 1200 \<and>
   distance (ob (updateBounds timeline document 0 scene)) = 1200"
  using updateBounds_distance_nonneg [of timeline document 0 inverted]
    updateBounds_distance_nonneg [of timeline document 0 scene]
  by (simp add: inverted_bounds bounded_fields [unfolded bounded_def])

text \<open>
  Claim C8. When a linked object is present, \<open>updateBounds\<close> seeks it to 0 with the
  callbacks muted, measures, and seeks it back, again muted, to the time it has read
  before: these are its only calls of the linked object, and the current time of the
  linked object after the call is the one before, for a linked object whose \<open>seek\<close> to
  that time leaves the time cursor there.
\<close>

theorem updateBounds_restores_linked_time:
  assumes "linked (ob s) = Some l"
    and "\<And>l'. lk_currentTime K (lk_seek K (lk_currentTime K l) True l') = lk_currentTime K l"
  shows "map_option (lk_currentTime K) (linked (ob (updateBounds K D i s))) =
           Some (lk_currentTime K l) \<and>
         tr (updateBounds K D i s) =
           tr s @ [LinkedSeek i 0 True, LinkedSeek i (lk_currentTime K l) True]"
  using updateBounds_linked [OF assms(1), of K D i] assms(2) by simp

theorem updateBounds_restores_linked_time_witness:
  "linked (ob playing) = Some 250 \<and>
   linked (ob (updateBounds timeline document 0 playing)) = Some 250 \<and>
   tr (updateBounds timeline document 0 playing) = [LinkedSeek 0 0 True, LinkedSeek 0 250 True]"
  using updateBounds_restores_linked_time [of playing 250 timeline document 0]
  by (simp add: playing_def scene_def timeline_def)

section \<open>Properties of revert\<close>

text \<open>
  Claim C9. A call of \<open>revert\<close> on an observer that is reverted changes nothing: not
  the observer, not the list or the state of its container, not the trace. So a second
  call of \<open>revert\<close> is without effect.
\<close>

theorem revert_idempotent:
  "revert i (revert i s) = revert i s \<and> (reverted (ob s) \<longrightarrow> revert i s = s)"
proof -
  have "reverted (ob (revert i s))"
    by (simp add: revert_def Let_def)
  then show ?thesis by (simp add: revert_def [of i "revert i s"]) (simp add: revert_def)
qed

theorem revert_idempotent_witness:
  "\<not> reverted (ob bounded) \<and> children (ct bounded) = [0] \<and>
   reverted (ob (revert 0 bounded)) \<and> children (ct (revert 0 bounded)) = [] \<and>
   \<not> active (ct (revert 0 bounded)) \<and>
   revert 0 (revert 0 bounded) = revert 0 bounded"
  using revert_idempotent [of 0 bounded] revert_idempotent [of 0 "revert 0 bounded"]
  by (simp add: revert_reverted revert_children bounded_fields)
     (simp add: revert_def Let_def bounded_fields bounded_frame watcher_fields removeChild_def
       container_revert_def page_def)

section \<open>Properties of the constructor\<close>

lemma constructor_sync_iff:
  assumes "\<And>e. parseEasings (SyncEase e) = e"
  shows "sync (constructor parseEasings parameters idx :: 'l observer) =
           (sync_truthy (setValue (p_sync parameters) (SyncStr ''play pause'')))"
  using assms
  by (cases "setValue (p_sync parameters) (SyncStr ''play pause'')")
     (auto simp: constructor_def Let_def sync_truthy_def)

lemma constructor_default:
  assumes "parseEasings (SyncStr ''play pause'') = EaseNone"
    and "p_sync parameters = None"
  shows "sync (constructor parseEasings parameters idx :: 'l observer)"
    and "onSyncEnter (constructor parseEasings parameters idx :: 'l observer) = SyncMethod ''play''"
    and "onSyncLeave (constructor parseEasings parameters idx :: 'l observer) = SyncMethod ''pause''"
    and "onSyncEnterForward (constructor parseEasings parameters idx :: 'l observer) = Noop"
    and "onSyncLeaveForward (constructor parseEasings parameters idx :: 'l observer) = Noop"
    and "onSyncEnterBackward (constructor parseEasings parameters idx :: 'l observer) = Noop"
    and "onSyncLeaveBackward (constructor parseEasings parameters idx :: 'l observer) = Noop"
    and "syncEase (constructor parseEasings parameters idx :: 'l observer) = None"
    and "syncSmooth (constructor parseEasings parameters idx :: 'l observer) = None"
  using assms
  by (simp_all add: constructor_def Let_def setValue_def sync_truthy_def split_js_def
      syncMethod_at_def)

lemma call_method:
  assumes "slot_field sl (ob s) = SyncMethod m"
  shows "call K i sl s =
     (case linked (ob s) of
        Some l \<Rightarrow>
          if lk_has K m l
          then s\<lparr>ob := (ob s)\<lparr>linked := Some (lk_call K m l)\<rparr>,
                 tr := tr s @ [Fired i sl, LinkedCall i m]\<rparr>
          else s\<lparr>tr := tr s @ [Fired i sl]\<rparr>
      | None \<Rightarrow> s\<lparr>tr := tr s @ [Fired i sl]\<rparr>)"
  using assms by (simp add: call_def Let_def split: option.split)

text \<open>
  Claim C10. Let \<open>parseEasings\<close> know no easing of the name \<open>play pause\<close>, and let it
  return an easing function as it is. When the option \<open>sync\<close> is not given, the
  constructor builds an observer with \<open>sync\<close> true, no easing and no smoothing, whose
  \<open>onSyncEnter\<close> is the closure of the method \<open>play\<close> and whose \<open>onSyncLeave\<close> is the
  closure of \<open>pause\<close>, the four directional sync callbacks being \<open>noop\<close>: the call of
  \<open>onSyncEnter\<close> calls \<open>play\<close> of the linked object when there is a linked object that
  defines it and does nothing to it otherwise, and so for \<open>onSyncLeave\<close> and \<open>pause\<close>.
  And \<open>sync\<close> is false exactly when the option is given and is falsy.
\<close>

theorem constructor_sync_default:
  fixes K :: "'l collab"
  assumes "parseEasings (SyncStr ''play pause'') = EaseNone"
    and "\<And>e. parseEasings (SyncEase e) = e"
  shows
    "(let this = (constructor parseEasings parameters idx :: 'l observer);
          s = \<lparr>ob = this\<lparr>linked := lnk\<rparr>, ct = c, tr = t\<rparr>
      in (p_sync parameters = None \<longrightarrow>
            sync this \<and> syncEase this = None \<and> syncSmooth this = None \<and>
            onSyncEnter this = SyncMethod ''play'' \<and> onSyncLeave this = SyncMethod ''pause'' \<and>
            onSyncEnterForward this = Noop \<and> onSyncLeaveForward this = Noop \<and>
            onSyncEnterBackward this = Noop \<and> onSyncLeaveBackward this = Noop \<and>
            call K i OnSyncEnter s =
              (case lnk of
                 Some l \<Rightarrow>
                   if lk_has K ''play'' l
                   then s\<lparr>ob := (ob s)\<lparr>linked := Some (lk_call K ''play'' l)\<rparr>,
                          tr := t @ [Fired i OnSyncEnter, LinkedCall i ''play'']\<rparr>
                   else s\<lparr>tr := t @ [Fired i OnSyncEnter]\<rparr>
               | None \<Rightarrow> s\<lparr>tr := t @ [Fired i OnSyncEnter]\<rparr>) \<and>
            call K i OnSyncLeave s =
              (case lnk of
                 Some l \<Rightarrow>
                   if lk_has K ''pause'' l
                   then s\<lparr>ob := (ob s)\<lparr>linked := Some (lk_call K ''pause'' l)\<rparr>,
                          tr := t @ [Fired i OnSyncLeave, LinkedCall i ''pause'']\<rparr>
                   else s\<lparr>tr := t @ [Fired i OnSyncLeave]\<rparr>
               | None \<Rightarrow> s\<lparr>tr := t @ [Fired i OnSyncLeave]\<rparr>)) \<and>
         ((\<not> sync this) = (\<exists>m. p_sync parameters = Some m \<and> \<not> sync_truthy m)))"
proof -
  let ?this = "constructor parseEasings parameters idx :: 'l observer"
  let ?s = "\<lparr>ob = ?this\<lparr>linked := lnk\<rparr>, ct = c, tr = t\<rparr>"
  have falsy: "(\<not> sync ?this) = (\<exists>m. p_sync parameters = Some m \<and> \<not> sync_truthy m)"
    unfolding constructor_sync_iff [OF assms(2)]
    by (cases "p_sync parameters") (simp_all add: setValue_def sync_truthy_def)
  have calls:
    "call K i OnSyncEnter ?s =
       (case lnk of
          Some l \<Rightarrow>
            if lk_has K ''play'' l
            then ?s\<lparr>ob := (ob ?s)\<lparr>linked := Some (lk_call K ''play'' l)\<rparr>,
                    tr := t @ [Fired i OnSyncEnter, LinkedCall i ''play'']\<rparr>
            else ?s\<lparr>tr := t @ [Fired i OnSyncEnter]\<rparr>
        | None \<Rightarrow> ?s\<lparr>tr := t @ [Fired i OnSyncEnter]\<rparr>)"
    "call K i OnSyncLeave ?s =
       (case lnk of
          Some l \<Rightarrow>
            if lk_has K ''pause'' l
            then ?s\<lparr>ob := (ob ?s)\<lparr>linked := Some (lk_call K ''pause'' l)\<rparr>,
                    tr := t @ [Fired i OnSyncLeave, LinkedCall i ''pause'']\<rparr>
            else ?s\<lparr>tr := t @ [Fired i OnSyncLeave]\<rparr>
        | None \<Rightarrow> ?s\<lparr>tr := t @ [Fired i OnSyncLeave]\<rparr>)"
    if "p_sync parameters = None"
    using constructor_default(2,3)
        [where parseEasings = parseEasings and parameters = parameters and idx = idx and ?'l = 'l]
      assms(1) that
    by (simp_all add: call_method slot_field_def split: option.split)
  show ?thesis
    unfolding Let_def
    using falsy calls assms(1)
      constructor_default
        [where parseEasings = parseEasings and parameters = parameters and idx = idx and ?'l = 'l]
    by blast
qed

theorem constructor_sync_default_witness:
  "named_easings (SyncStr ''play pause'') = EaseNone \<and>
   p_sync no_params = None \<and>
   sync (constructor named_easings no_params 0 :: real observer) \<and>
   onSyncEnter (constructor named_easings no_params 0 :: real observer) = SyncMethod ''play'' \<and>
   onSyncLeave (constructor named_easings no_params 0 :: real observer) = SyncMethod ''pause'' \<and>
   tr (call timeline 0 OnSyncEnter
         \<lparr>ob = (constructor named_easings no_params 0)\<lparr>linked := Some 250\<rparr>, ct = page, tr = []\<rparr>) =
     [Fired 0 OnSyncEnter, LinkedCall 0 ''play''] \<and>
   tr (call timeline 0 OnSyncEnter
         \<lparr>ob = (constructor named_easings no_params 0)\<lparr>linked := None\<rparr>, ct = page, tr = []\<rparr>) =
     [Fired 0 OnSyncEnter] \<and>
   \<not> sync (constructor named_easings (no_params\<lparr>p_sync := Some (SyncBool False)\<rparr>) 0 :: real observer)"
  using constructor_sync_default
      [where parseEasings = named_easings and parameters = no_params and K = timeline
        and i = 0 and idx = 0 and lnk = "Some 250" and c = page and t = "[]"]
    constructor_sync_default
      [where parseEasings = named_easings and parameters = no_params and K = timeline
        and i = 0 and idx = 0 and lnk = None and c = page and t = "[]"]
    constructor_sync_default
      [where parseEasings = named_easings
        and parameters = "no_params\<lparr>p_sync := Some (SyncBool False)\<rparr>" and K = timeline
        and i = 0 and idx = 0 and lnk = None and c = page and t = "[]"]
  by (simp add: named_easings_def no_params_def timeline_def sync_truthy_def Let_def)

section \<open>Properties of a scroll sweep\<close>

lemma scrollTo_frame:
  "ob (scrollTo x s) = ob s" "tr (scrollTo x s) = tr s"
  "scroll (ob s) (ct (scrollTo x s)) = x"
  "backward (ob s) (ct (scrollTo x s)) = backward (ob s) (ct s)"
  by (simp_all add: scrollTo_def scroll_def backward_def)

lemma handleScroll_backward:
  "backward (ob (handleScroll K i s)) (ct (handleScroll K i s)) = backward (ob s) (ct s)"
  by (simp add: backward_def handleScroll_keeps)

lemma tick_view:
  "isInView (ob (handleScroll K i (scrollTo x s))) = (offsetStart (ob s) < x \<and> x < offsetEnd (ob s))"
  "hasEntered (ob (handleScroll K i (scrollTo x s))) =
     (hasEntered (ob s) \<or>
      enters (offsetStart (ob s) < x \<and> x < offsetEnd (ob s))
        (\<not> hasEntered (ob s) \<and> (x = offsetStart (ob s) \<or> x = offsetEnd (ob s))) (ob s))"
  "forceEnter (ob (handleScroll K i (scrollTo x s))) =
     (if enters (offsetStart (ob s) < x \<and> x < offsetEnd (ob s))
           (\<not> hasEntered (ob s) \<and> (x = offsetStart (ob s) \<or> x = offsetEnd (ob s))) (ob s)
      then ((\<not> hasEntered (ob s) \<and> (x = offsetStart (ob s) \<or> x = offsetEnd (ob s))) \<or>
            forceEnter (ob s))
      else if (offsetStart (ob s) < x \<and> x < offsetEnd (ob s)) \<and> \<not> isInView (ob s) then False
      else forceEnter (ob s))"
  "crossings i (tr (handleScroll K i (scrollTo x s))) =
     crossings i (tr s) @
       (if enters (offsetStart (ob s) < x \<and> x < offsetEnd (ob s))
             (\<not> hasEntered (ob s) \<and> (x = offsetStart (ob s) \<or> x = offsetEnd (ob s))) (ob s)
        then enterEvents i (backward (ob s) (ct s)) else []) @
       (if \<not> (offsetStart (ob s) < x \<and> x < offsetEnd (ob s)) \<and> isInView (ob s)
        then leaveEvents i (backward (ob s) (ct s)) else [])"
  "offsetStart (ob (handleScroll K i (scrollTo x s))) = offsetStart (ob s)"
  "offsetEnd (ob (handleScroll K i (scrollTo x s))) = offsetEnd (ob s)"
  "backward (ob (handleScroll K i (scrollTo x s))) (ct (handleScroll K i (scrollTo x s))) =
     backward (ob s) (ct s)"
  by (simp_all add: handleScroll_view [where s = "scrollTo x s"] handleScroll_keeps
      handleScroll_backward scrollTo_frame)

lemma sweep_after:
  "hasEntered (ob s) \<Longrightarrow> \<not> isInView (ob s) \<Longrightarrow> \<forall>x \<in> set xs. offsetEnd (ob s) \<le> x \<Longrightarrow>
   crossings i (tr (sweep K i xs s)) = crossings i (tr s)"
proof (induction xs arbitrary: s)
  case Nil
  then show ?case by simp
next
  case (Cons x xs)
  let ?s = "handleScroll K i (scrollTo x s)"
  from Cons.prems have x: "offsetEnd (ob s) \<le> x" by simp
  have en: "\<not> enters (offsetStart (ob s) < x \<and> x < offsetEnd (ob s))
     (\<not> hasEntered (ob s) \<and> (x = offsetStart (ob s) \<or> x = offsetEnd (ob s))) (ob s)"
    using Cons.prems x by (simp add: enters_def)
  have "crossings i (tr (sweep K i xs ?s)) = crossings i (tr ?s)"
    using Cons.prems x en by (intro Cons.IH) (simp_all add: tick_view)
  also have "\<dots> = crossings i (tr s)"
    using Cons.prems x en by (simp add: tick_view)
  finally show ?case by simp
qed

lemma sweep_inside:
  "isInView (ob s) \<Longrightarrow> hasEntered (ob s) \<Longrightarrow> sorted xs \<Longrightarrow>
   \<forall>x \<in> set xs. offsetStart (ob s) < x \<Longrightarrow> xs \<noteq> [] \<Longrightarrow> offsetEnd (ob s) \<le> last xs \<Longrightarrow>
   crossings i (tr (sweep K i xs s)) = crossings i (tr s) @ leaveEvents i (backward (ob s) (ct s))"
proof (induction xs arbitrary: s)
  case Nil
  then show ?case by simp
next
  case (Cons x xs)
  let ?s = "handleScroll K i (scrollTo x s)"
  from Cons.prems have x: "offsetStart (ob s) < x" and srt: "sorted xs" "\<forall>y \<in> set xs. x \<le> y"
    by simp_all
  have en: "\<not> enters (offsetStart (ob s) < x \<and> x < offsetEnd (ob s))
     (\<not> hasEntered (ob s) \<and> (x = offsetStart (ob s) \<or> x = offsetEnd (ob s))) (ob s)"
    using Cons.prems by (simp add: enters_def)
  show ?case
  proof (cases "x < offsetEnd (ob s)")
    case True
    with Cons.prems have ne: "xs \<noteq> []" and l: "offsetEnd (ob s) \<le> last xs"
      by (auto split: if_splits)
    have "crossings i (tr (sweep K i xs ?s)) =
            crossings i (tr ?s) @ leaveEvents i (backward (ob ?s) (ct ?s))"
      using Cons.prems x True en srt ne l by (intro Cons.IH) (simp_all add: tick_view)
    also have "\<dots> = crossings i (tr s) @ leaveEvents i (backward (ob s) (ct s))"
      using Cons.prems x True en by (simp add: tick_view)
    finally show ?thesis by simp
  next
    case False
    have "crossings i (tr (sweep K i xs ?s)) = crossings i (tr ?s)"
      using Cons.prems x False en srt by (intro sweep_after) (auto simp: tick_view)
    also have "\<dots> = crossings i (tr s) @ leaveEvents i (backward (ob s) (ct s))"
      using Cons.prems x False en by (simp add: tick_view)
    finally show ?thesis by simp
  qed
qed

lemma sweep_before:
  "\<not> isInView (ob s) \<Longrightarrow> hasEntered (ob s) = forceEnter (ob s) \<Longrightarrow> sorted xs \<Longrightarrow>
   \<exists>x \<in> set xs. offsetStart (ob s) < x \<and> x < offsetEnd (ob s) \<Longrightarrow>
   offsetEnd (ob s) \<le> last xs \<Longrightarrow>
   crossings i (tr (sweep K i xs s)) =
     crossings i (tr s) @
       (if hasEntered (ob s) then [] else enterEvents i (backward (ob s) (ct s))) @
       leaveEvents i (backward (ob s) (ct s))"
proof (induction xs arbitrary: s)
  case Nil
  then show ?case by simp
next
  case (Cons x xs)
  let ?s = "handleScroll K i (scrollTo x s)"
  let ?v = "offsetStart (ob s) < x \<and> x < offsetEnd (ob s)"
  let ?f = "\<not> hasEntered (ob s) \<and> (x = offsetStart (ob s) \<or> x = offsetEnd (ob s))"
  from Cons.prems have srt: "sorted xs" "\<forall>y \<in> set xs. x \<le> y" by simp_all
  from Cons.prems obtain y where y: "y \<in> set (x # xs)" "offsetStart (ob s) < y" "y < offsetEnd (ob s)"
    by blast
  then have ab: "offsetStart (ob s) < offsetEnd (ob s)" by simp
  from y srt have xb: "x < offsetEnd (ob s)" by auto
  show ?case
  proof (cases "offsetStart (ob s) < x")
    case True
    then have en: "enters ?v ?f (ob s) = (\<not> hasEntered (ob s))"
      using Cons.prems xb by (auto simp: enters_def)
    from Cons.prems xb have ne: "xs \<noteq> []" and l: "offsetEnd (ob s) \<le> last xs"
      by (auto split: if_splits)
    have "crossings i (tr (sweep K i xs ?s)) =
            crossings i (tr ?s) @ leaveEvents i (backward (ob ?s) (ct ?s))"
      using Cons.prems True xb en srt ne l by (intro sweep_inside) (auto simp: tick_view)
    also have "\<dots> = crossings i (tr s) @
       (if hasEntered (ob s) then [] else enterEvents i (backward (ob s) (ct s))) @
       leaveEvents i (backward (ob s) (ct s))"
      using Cons.prems True xb en by (simp add: tick_view)
    finally show ?thesis by simp
  next
    case False
    then have en: "enters ?v ?f (ob s) = (\<not> hasEntered (ob s) \<and> x = offsetStart (ob s))"
      using Cons.prems ab by (auto simp: enters_def)
    from False y have yxs: "y \<in> set xs" by auto
    with Cons.prems have l: "offsetEnd (ob s) \<le> last xs" by (auto split: if_splits)
    have "crossings i (tr (sweep K i xs ?s)) =
            crossings i (tr ?s) @
              (if hasEntered (ob ?s) then [] else enterEvents i (backward (ob ?s) (ct ?s))) @
              leaveEvents i (backward (ob ?s) (ct ?s))"
      using Cons.prems False en srt yxs y l by (intro Cons.IH) (auto simp: tick_view)
    also have "\<dots> = crossings i (tr s) @
       (if hasEntered (ob s) then [] else enterEvents i (backward (ob s) (ct s))) @
       leaveEvents i (backward (ob s) (ct s))"
      using Cons.prems False en by (auto simp: tick_view)
    finally show ?thesis by simp
  qed
qed

text \<open>
  Claim C2, as the code has it. Let an observer be fresh (\<open>isInView\<close>, \<open>hasEntered\<close> and
  \<open>forceEnter\<close> false), let the direction flag of its axis say forward, and let the
  bounds be fixed. Over a sweep of scroll positions that never decrease, that has a
  position strictly between \<open>offsetStart\<close> and \<open>offsetEnd\<close> and that ends at or after
  \<open>offsetEnd\<close>, the calls of \<open>handleScroll\<close> call the enter callbacks once, in the order
  \<open>onSyncEnter\<close>, \<open>onEnter\<close>, \<open>onSyncEnterForward\<close>, \<open>onEnterForward\<close>, and after them the
  leave callbacks once, in the order \<open>onSyncLeave\<close>, \<open>onLeave\<close>, \<open>onSyncLeaveForward\<close>,
  \<open>onLeaveForward\<close>, and no other enter or leave callback; positions of the sweep may
  lie on a bound.
\<close>

theorem sweep_forward_fires_once:
  assumes "\<not> isInView (ob s)" and "\<not> hasEntered (ob s)" and "\<not> forceEnter (ob s)"
    and "\<not> backward (ob s) (ct s)"
    and "sorted xs"
    and "\<exists>x \<in> set xs. offsetStart (ob s) < x \<and> x < offsetEnd (ob s)"
    and "offsetEnd (ob s) \<le> last xs"
  shows "crossings i (tr (sweep K i xs s)) =
           crossings i (tr s) @
             [Fired i OnSyncEnter, Fired i OnEnter, Fired i OnSyncEnterForward, Fired i OnEnterForward,
              Fired i OnSyncLeave, Fired i OnLeave, Fired i OnSyncLeaveForward, Fired i OnLeaveForward]"
  using sweep_before [of s xs i K] assms by (simp add: enterEvents_def leaveEvents_def)

text \<open>
  The theorem at the example, on a sweep that stops on each bound: the positions are
  -300, -200 (the start), 400, 1000 (the end) and 1300.
\<close>

theorem sweep_forward_fires_once_witness:
  "sorted [- 300, - 200, 400, 1000, 1300 :: real] \<and>
   offsetStart (ob bounded) = - 200 \<and> offsetEnd (ob bounded) = 1000 \<and>
   crossings 0 (tr (sweep timeline 0 [- 300, - 200, 400, 1000, 1300] bounded)) =
     [Fired 0 OnSyncEnter, Fired 0 OnEnter, Fired 0 OnSyncEnterForward, Fired 0 OnEnterForward,
      Fired 0 OnSyncLeave, Fired 0 OnLeave, Fired 0 OnSyncLeaveForward, Fired 0 OnLeaveForward]"
  using sweep_forward_fires_once [of bounded "[- 300, - 200, 400, 1000, 1300]" 0 timeline]
  by (simp add: bounded_fields)

text \<open>
  Claim C2 as it is stated fails for a sweep that has no position strictly between the
  bounds. From -300 straight to 1300 no enter and no leave callback is called; from
  -300 over the start -200 to 1300 the enter callbacks are called on the bound and the
  leave callbacks never.
\<close>

theorem sweep_forward_counterexample:
  "sorted [- 300, 1300 :: real] \<and> - 300 < offsetStart (ob bounded) \<and> offsetEnd (ob bounded) < 1300 \<and>
   crossings 0 (tr (sweep timeline 0 [- 300, 1300] bounded)) = [] \<and>
   crossings 0 (tr (sweep timeline 0 [- 300, - 200, 1300] bounded)) =
     [Fired 0 OnSyncEnter, Fired 0 OnEnter, Fired 0 OnSyncEnterForward, Fired 0 OnEnterForward]"
  by (simp add: tick_view bounded_fields enters_def enterEvents_def leaveEvents_def)

section \<open>Properties of completion\<close>

lemma with_observer_fields:
  "w_container (with_observer i f w) =
     ct (f \<lparr>ob = w_observers w i, ct = w_container w, tr = w_trace w\<rparr>)"
  "w_trace (with_observer i f w) =
     tr (f \<lparr>ob = w_observers w i, ct = w_container w, tr = w_trace w\<rparr>)"
  "w_observers (with_observer i f w) i =
     ob (f \<lparr>ob = w_observers w i, ct = w_container w, tr = w_trace w\<rparr>)"
  by (simp_all add: with_observer_def Let_def)

lemma with_observer_detached:
  assumes "j \<noteq> i" and "detached i t w"
  shows "detached i t (with_observer j (handleScroll K j) w)"
proof -
  let ?s = "\<lparr>ob = w_observers w j, ct = w_container w, tr = w_trace w\<rparr>"
  from assms(1) have ij: "i \<noteq> j" by simp
  have "set (children (ct (handleScroll K j ?s))) \<subseteq> set (children (w_container w))"
    using handleScroll_children [of K j ?s] by simp
  moreover have "filter (is_own i) (tr (handleScroll K j ?s)) = filter (is_own i) (w_trace w)"
    using handleScroll_own [OF ij, of K ?s] by simp
  ultimately show ?thesis
    using assms(2) by (auto simp: detached_def with_observer_fields)
qed

lemma children_detached:
  "i \<notin> set js \<Longrightarrow> detached i t w \<Longrightarrow>
   detached i t (foldl (\<lambda>w' child. with_observer child (handleScroll K child) w') w js)"
proof (induction js arbitrary: w)
  case Nil
  then show ?case by simp
next
  case (Cons j js)
  then have "j \<noteq> i" by auto
  from with_observer_detached [OF this Cons.prems(2)] Cons.prems(1) Cons.IH
  show ?case by simp
qed

lemma step_detached: "detached i t w \<Longrightarrow> detached i t (step K x w)"
proof (cases x)
  case (ScrollEvent a b)
  assume "detached i t w"
  then show ?thesis
    by (simp add: ScrollEvent detached_def container_handleScroll_def is_own_def)
next
  case (Sample dt)
  assume "detached i t w"
  then show ?thesis
    by (simp add: Sample detached_def dataTimer_onUpdate_def Let_def)
next
  case Tick
  assume d: "detached i t w"
  then have "i \<notin> set (children (w_container w))" "i \<notin> set (rev (children (w_container w)))"
    by (simp_all add: detached_def)
  with d show ?thesis
    by (simp add: Tick scrollTicker_onUpdate_def forEachChildren_def Let_def children_detached)
qed

lemma run_detached: "detached i t w \<Longrightarrow> detached i t (run K inputs w)"
  unfolding run_def
  by (induction inputs arbitrary: w) (simp_all add: step_detached)

text \<open>
  Claim C3, as the code has it. Let an observer have no linked object and \<open>repeat\<close>
  false, and let it be neither reverted nor completed. On a call of \<open>handleScroll\<close> in
  which its progress is 1 (which sets \<open>began\<close>), and in which either \<open>sync\<close> is false, or
  the observer leaves the view and \<open>syncSmooth\<close> is not set, the observer sets
  \<open>completed\<close> and reverts: it is removed from the list of its container, and whatever
  scroll events, samples and ticks come to the container afterwards, the observer
  stays out of the list and none of its callbacks is called.
\<close>

theorem completion_detaches:
  fixes w :: "'l world"
  assumes "linked (w_observers w i) = None"
    and "\<not> repeat (w_observers w i)"
    and "\<not> reverted (w_observers w i)"
    and "\<not> completed (w_observers w i)"
    and "progress (w_observers w i) (w_container w) = 1"
    and "\<not> sync (w_observers w i) \<or>
         (isInView (w_observers w i) \<and> \<not> truthy (syncSmooth (w_observers w i)) \<and>
          (scroll (w_observers w i) (w_container w) \<le> offsetStart (w_observers w i) \<or>
           offsetEnd (w_observers w i) \<le> scroll (w_observers w i) (w_container w)))"
  shows "(let w' = with_observer i (handleScroll K i) w
          in completed (w_observers w' i) \<and> reverted (w_observers w' i) \<and>
             children (w_container w') = removeAll i (children (w_container w)) \<and>
             (\<forall>inputs.
                i \<notin> set (children (w_container (run K inputs w'))) \<and>
                filter (is_own i) (w_trace (run K inputs w')) = filter (is_own i) (w_trace w')))"
proof -
  let ?s = "\<lparr>ob = w_observers w i, ct = w_container w, tr = w_trace w\<rparr>"
  let ?w = "with_observer i (handleScroll K i) w"
  have hc: "completed (ob (handleScroll K i ?s))" "reverted (ob (handleScroll K i ?s))"
    "children (ct (handleScroll K i ?s)) = removeAll i (children (w_container w))"
    using assms handleScroll_completes [of ?s K i] by simp_all
  have ch: "children (w_container ?w) = removeAll i (children (w_container w))"
    using hc(3) by (simp add: with_observer_fields)
  then have "detached i (filter (is_own i) (w_trace ?w)) ?w"
    by (simp add: detached_def)
  then have "detached i (filter (is_own i) (w_trace ?w)) (run K inputs ?w)" for inputs
    by (rule run_detached)
  then show ?thesis
    using hc(1,2) ch unfolding Let_def by (simp add: with_observer_fields detached_def)
qed

text \<open>
  The theorem at the example, for the observer built with \<^verbatim>\<open>repeat: false\<close>: a call of
  \<open>handleScroll\<close> at 400, in view, and then the call at 1300, with which it leaves.
\<close>

theorem completion_detaches_witness:
  "(let s = scrollTo 1300 (handleScroll timeline 0 (scrollTo 400 once));
        w = world_of s;
        w' = with_observer 0 (handleScroll timeline 0) w
    in linked (ob s) = None \<and> \<not> repeat (ob s) \<and> \<not> reverted (ob s) \<and> \<not> completed (ob s) \<and>
       progress (ob s) (ct s) = 1 \<and> sync (ob s) \<and> isInView (ob s) \<and>
       offsetEnd (ob s) \<le> scroll (ob s) (ct s) \<and> children (ct s) = [0] \<and>
       completed (w_observers w' 0) \<and> reverted (w_observers w' 0) \<and>
       children (w_container w') = [] \<and>
       filter (is_own 0) (w_trace (run timeline [ScrollEvent 0 400, Tick, ScrollEvent 0 1300, Tick] w')) =
         filter (is_own 0) (w_trace w'))"
proof -
  let ?s1 = "handleScroll timeline 0 (scrollTo 400 once)"
  let ?s = "scrollTo 1300 ?s1"
  have "\<lfloor>(500000::real) + 1 / 2\<rfloor> = 500000" by linarith
  then have half: "round_js (1 / 2) 6 = 1 / 2" by (simp add: round_js_def)
  have p400: "progress (ob once) (ct (scrollTo 400 once)) < 1"
    by (simp add: scrollTo_fields once_fields js_div_def clamp_def half)
  have idle:
    "\<not> completed (ob ?s1)" "reverted (ob ?s1) = False" "children (ct ?s1) = [0]"
    using handleScroll_idle [of "scrollTo 400 once" timeline 0] p400
    by (simp_all add: scrollTo_fields once_fields)
  have f1: "linked (ob ?s1) = None" "repeat (ob ?s1) = False" "sync (ob ?s1) = True"
    "syncSmooth (ob ?s1) = None" "isInView (ob ?s1) = True" "offsetStart (ob ?s1) = - 200"
    "offsetEnd (ob ?s1) = 1000" "distance (ob ?s1) = 1200" "horizontal (ob ?s1) = False"
    by (simp_all add: handleScroll_linked_None handleScroll_keeps handleScroll_keeps2 tick_view
        scrollTo_fields once_fields)
  have p: "progress (ob ?s) (ct ?s) = 1"
    by (simp add: scrollTo_fields f1 js_div_def clamp_def round_js_one)
  have sc: "scroll (ob ?s) (ct ?s) = 1300"
    by (simp add: scrollTo_fields)
  have hyp: "linked (ob ?s) = None" "\<not> repeat (ob ?s)" "\<not> reverted (ob ?s)" "\<not> completed (ob ?s)"
    "sync (ob ?s)" "isInView (ob ?s)" "\<not> truthy (syncSmooth (ob ?s))"
    "offsetEnd (ob ?s) \<le> scroll (ob ?s) (ct ?s)" "children (ct ?s) = [0]"
    using idle by (simp_all add: scrollTo_fields f1 truthy_def)
  show ?thesis
    using completion_detaches [of "world_of ?s" 0 timeline] hyp p
    unfolding Let_def
    by (simp add: world_of_fields)
qed

text \<open>
  Claim C3 as it is stated fails when \<open>sync\<close> is true and the call is no leave. The
  observer of the example has the default \<open>sync\<close> of the two methods \<open>play\<close> and \<open>pause\<close>;
  the scroll position goes from before the start to 1300, past the end. After the
  first call \<open>began\<close> is true, \<open>completed\<close> is false and the progress is 1; the second
  call does not set \<open>completed\<close>, does not revert, and leaves the observer in the list.
\<close>

theorem completion_detaches_counterexample:
  "(let w1 = with_observer 0 (handleScroll timeline 0) (world_of (scrollTo 1300 once));
        w2 = with_observer 0 (handleScroll timeline 0) w1
    in linked (w_observers w1 0) = None \<and> \<not> repeat (w_observers w1 0) \<and>
       began (w_observers w1 0) \<and> \<not> completed (w_observers w1 0) \<and>
       progress (w_observers w1 0) (w_container w1) = 1 \<and>
       \<not> completed (w_observers w2 0) \<and> \<not> reverted (w_observers w2 0) \<and>
       children (w_container w2) = [0])"
proof -
  let ?s0 = "scrollTo 1300 once"
  let ?s1 = "handleScroll timeline 0 ?s0"
  let ?s2 = "handleScroll timeline 0 ?s1"
  have p0: "progress (ob ?s0) (ct ?s0) = 1"
    by (simp add: scrollTo_fields once_fields js_div_def clamp_def round_js_one)
  have i1: "\<not> completed (ob ?s1)" "reverted (ob ?s1) = False" "children (ct ?s1) = [0]"
    "began (ob ?s1)"
    using handleScroll_idle [of ?s0 timeline 0] p0
    by (simp_all add: scrollTo_fields once_fields)
  have f1: "linked (ob ?s1) = None" "repeat (ob ?s1) = False" "sync (ob ?s1) = True"
    "isInView (ob ?s1) = False" "offsetEnd (ob ?s1) = 1000"
    "progress (ob ?s1) (ct ?s1) = 1" "scroll (ob ?s1) (ct ?s1) = 1300"
    using p0
    by (simp_all add: handleScroll_linked_None handleScroll_keeps handleScroll_keeps2 tick_view
        handleScroll_progress scrollTo_fields once_fields)
  have i2: "\<not> completed (ob ?s2)" "reverted (ob ?s2) = False" "children (ct ?s2) = [0]"
    using handleScroll_idle [of ?s1 timeline 0] i1 f1 by simp_all
  have w1: "\<lparr>ob = w_observers (with_observer 0 (handleScroll timeline 0) (world_of ?s0)) 0,
              ct = w_container (with_observer 0 (handleScroll timeline 0) (world_of ?s0)),
              tr = w_trace (with_observer 0 (handleScroll timeline 0) (world_of ?s0))\<rparr> = ?s1"
    by (simp add: with_observer_fields world_of_fields frame_eta)
  show ?thesis
    unfolding Let_def
    using i1 f1 i2 by (simp add: with_observer_fields w1) (simp add: world_of_fields frame_eta)
qed

end
